theory Spec2Isabelle
  imports Main "HOL-Library.Word"
begin

section \<open>Strings of the runtime\<close>

text \<open>
  A JavaScript string is a sequence of 16-bit code units. All functions of the codec
  work on code units (regular expressions without the \<open>u\<close> flag, indexing,
  \<open>slice\<close>), and \<open>foldLine\<close> counts the UTF-8 octets of the code points the units
  encode, so a string is modelled as a list of 16-bit words.
\<close>

type_synonym jsstring = "16 word list"

abbreviation c16 :: "char \<Rightarrow> 16 word" where
  "c16 c \<equiv> of_char c"

abbreviation backslash :: "16 word" where
  "backslash \<equiv> 0x5C"

abbreviation dquote :: "16 word" where
  "dquote \<equiv> 0x22"

abbreviation LF :: "16 word" where
  "LF \<equiv> 0x0A"

abbreviation CR :: "16 word" where
  "CR \<equiv> 0x0D"

abbreviation TAB :: "16 word" where
  "TAB \<equiv> 0x09"

abbreviation SP :: "16 word" where
  "SP \<equiv> 0x20"

text \<open>The string with the code units of an ASCII literal.\<close>

definition js :: "string \<Rightarrow> jsstring" where
  "js s = map of_char s"

text \<open>\<open>s.slice(b, e)\<close> for indices \<open>0 \<le> b\<close>, \<open>0 \<le> e\<close>; both are clamped to the length.\<close>

definition slice :: "jsstring \<Rightarrow> nat \<Rightarrow> nat \<Rightarrow> jsstring" where
  "slice s b e = take (e - b) (drop b s)"

definition startsWith :: "jsstring \<Rightarrow> jsstring \<Rightarrow> bool" where
  "startsWith s p = (take (length p) s = p)"

definition endsWith :: "jsstring \<Rightarrow> jsstring \<Rightarrow> bool" where
  "endsWith s p = (length p \<le> length s \<and> drop (length s - length p) s = p)"

text \<open>
  \<open>s.replace(/c/g, r)\<close> for a pattern of one code unit: every occurrence is replaced.
\<close>

definition replaceUnit :: "16 word \<Rightarrow> jsstring \<Rightarrow> jsstring \<Rightarrow> jsstring" where
  "replaceUnit c r s = concat (map (\<lambda>x. if x = c then r else [x]) s)"

text \<open>
  \<open>s.replace(/ab/g, r)\<close> for a pattern of two code units: the scan goes from left to
  right and resumes after each match, so matches do not overlap.
\<close>

fun replacePair :: "16 word \<Rightarrow> 16 word \<Rightarrow> jsstring \<Rightarrow> jsstring \<Rightarrow> jsstring" where
  "replacePair a b r (x # y # s) =
     (if x = a \<and> y = b then r @ replacePair a b r s
      else x # replacePair a b r (y # s))"
| "replacePair a b r s = s"

section \<open>escape.ts\<close>

text \<open>
  \<open>unescapeText\<close>: \<open>s.replace(/\\(\\|n|N|,|;)/g, (_, c) => ...)\<close>. The pattern matches
  a backslash followed by one of the five listed units; the callback maps the captured
  unit. Every other unit, a backslash before any other unit included, is copied.
\<close>

fun unescapeText :: "jsstring \<Rightarrow> jsstring" where
  "unescapeText (x # c # s) =
     (if x = backslash \<and>
         (c = backslash \<or> c = c16 CHR ''n'' \<or> c = c16 CHR ''N'' \<or> c = c16 CHR '','' \<or> c = c16 CHR '';'')
      then (if c = c16 CHR ''n'' \<or> c = c16 CHR ''N'' then LF
            else if c = backslash then backslash
            else if c = c16 CHR '','' then c16 CHR '',''
            else if c = c16 CHR '';'' then c16 CHR '';''
            else c) # unescapeText s
      else x # unescapeText (c # s))"
| "unescapeText s = s"

definition escapeText :: "jsstring \<Rightarrow> jsstring" where
  "escapeText s =
     replaceUnit (c16 CHR '';'') [backslash, c16 CHR '';'']
       (replaceUnit (c16 CHR '','') [backslash, c16 CHR '','']
         (replaceUnit LF [backslash, c16 CHR ''n'']
           (replaceUnit backslash [backslash, backslash] s)))"

definition needsParamQuoting :: "jsstring \<Rightarrow> bool" where
  "needsParamQuoting v =
     list_ex (\<lambda>c. c = c16 CHR '';'' \<or> c = c16 CHR '':'' \<or> c = c16 CHR '','' \<or> c = dquote) v"

definition quoteParamValue :: "jsstring \<Rightarrow> jsstring" where
  "quoteParamValue v =
     (if needsParamQuoting v
      then [dquote] @ replaceUnit dquote [backslash, dquote]
                        (replaceUnit backslash [backslash, backslash] v) @ [dquote]
      else v)"

definition unquoteParamValue :: "jsstring \<Rightarrow> jsstring" where
  "unquoteParamValue v =
     (if startsWith v [dquote] \<and> endsWith v [dquote] \<and> 2 \<le> length v
      then replacePair backslash backslash [backslash]
             (replacePair backslash dquote [dquote] (slice v 1 (length v - 1)))
      else v)"

section \<open>generator.ts: line folding\<close>

definition MAX_LINE_OCTETS :: nat where
  "MAX_LINE_OCTETS = 75"

definition isHighSurrogate :: "16 word \<Rightarrow> bool" where
  "isHighSurrogate c = (0xD800 \<le> c \<and> c \<le> 0xDBFF)"

definition isLowSurrogate :: "16 word \<Rightarrow> bool" where
  "isLowSurrogate c = (0xDC00 \<le> c \<and> c \<le> 0xDFFF)"

text \<open>
  \<open>line.codePointAt(i)\<close> for an index inside the string (the source calls it under
  the loop guard \<open>end < line.length\<close>): a high surrogate followed by a low surrogate
  is the code point of the pair, any other unit is its own code point.
\<close>

definition codePointAt :: "jsstring \<Rightarrow> nat \<Rightarrow> nat" where
  "codePointAt s i =
     (if isHighSurrogate (s ! i) \<and> i + 1 < length s \<and> isLowSurrogate (s ! (i + 1))
      then 0x10000 + (unat (s ! i) - 0xD800) * 0x400 + (unat (s ! (i + 1)) - 0xDC00)
      else unat (s ! i))"

text \<open>
  \<open>Buffer.byteLength(line, 'utf8')\<close>: a surrogate pair encodes to four octets, a unit
  below \<open>0x80\<close> to one, below \<open>0x800\<close> to two, every other unit to three (a lone
  surrogate is encoded as U+FFFD).
\<close>

definition unitOctets :: "16 word \<Rightarrow> nat" where
  "unitOctets c = (if c \<le> 0x7F then 1 else if c \<le> 0x7FF then 2 else 3)"

fun byteLength :: "jsstring \<Rightarrow> nat" where
  "byteLength (h # l # s) =
     (if isHighSurrogate h \<and> isLowSurrogate l then 4 + byteLength s
      else unitOctets h + byteLength (l # s))"
| "byteLength [c] = unitOctets c"
| "byteLength [] = 0"

text \<open>
  The inner loop of \<open>foldLine\<close>: from index \<open>e\<close> with \<open>octetCount\<close> octets counted,
  advance one code point at a time while the next one still fits \<open>maxBytes\<close>; the
  result is the final value of the source's \<open>end\<close>.
\<close>

function scanSegment :: "jsstring \<Rightarrow> nat \<Rightarrow> nat \<Rightarrow> nat \<Rightarrow> nat" where
  "scanSegment line maxBytes e octetCount =
     (if e < length line then
        (let cp = codePointAt line e;
             charBytes = (if cp > 0xffff then 4 else if cp > 0x7ff then 3
                          else if cp > 0x7f then 2 else 1)
         in if octetCount + charBytes > maxBytes then e
            else scanSegment line maxBytes (e + (if cp > 0xffff then 2 else 1))
                   (octetCount + charBytes))
      else e)"
  by pat_completeness auto
termination
  by (relation "measure (\<lambda>(line, maxBytes, e, octetCount). length line - e)") auto

lemma scanSegment_ge: "e \<le> scanSegment line maxBytes e octetCount"
proof (induction line maxBytes e octetCount rule: scanSegment.induct)
  case (1 line maxBytes e octetCount)
  show ?case
  proof (cases "e < length line \<and>
      \<not> octetCount + (if codePointAt line e > 0xffff then 4 else if codePointAt line e > 0x7ff then 3
                        else if codePointAt line e > 0x7f then 2 else 1) > maxBytes")
    case True
    then have "e + (if codePointAt line e > 0xffff then 2 else 1)
               \<le> scanSegment line maxBytes (e + (if codePointAt line e > 0xffff then 2 else 1))
                    (octetCount + (if codePointAt line e > 0xffff then 4 else if codePointAt line e > 0x7ff then 3
                        else if codePointAt line e > 0x7f then 2 else 1))"
      using "1.IH" by (simp add: Let_def)
    then have "e \<le> scanSegment line maxBytes (e + (if codePointAt line e > 0xffff then 2 else 1))
                    (octetCount + (if codePointAt line e > 0xffff then 4 else if codePointAt line e > 0x7ff then 3
                        else if codePointAt line e > 0x7f then 2 else 1))"
      by (simp split: if_splits)
    then show ?thesis
      using True by (subst scanSegment.simps) (simp add: Let_def)
  next
    case False
    then show ?thesis
      by (subst scanSegment.simps) (auto simp: Let_def)
  qed
qed

declare scanSegment.simps [simp del]

text \<open>
  The outer loop of \<open>foldLine\<close>: the segments pushed to \<open>parts\<close> from index \<open>start\<close>
  on. A segment that took no code point is forced to one code unit; every segment
  after the first has one octet less.
\<close>

function foldSegments :: "jsstring \<Rightarrow> nat \<Rightarrow> nat \<Rightarrow> jsstring list" where
  "foldSegments line start maxBytes =
     (if start < length line then
        (let e0 = scanSegment line maxBytes start 0;
             e = (if e0 = start then start + 1 else e0)
         in slice line start e # foldSegments line e (MAX_LINE_OCTETS - 1))
      else [])"
  by pat_completeness auto
termination
proof (relation "measure (\<lambda>(line, start, maxBytes). length line - start)")
  show "wf (measure (\<lambda>(line, start, maxBytes). length line - start))"
    by simp
next
  fix line :: jsstring and start maxBytes e0 e :: nat
  assume "start < length line" and e0: "e0 = scanSegment line maxBytes start 0"
    and e: "e = (if e0 = start then start + 1 else e0)"
  have "start \<le> e0"
    unfolding e0 by (rule scanSegment_ge)
  then have "start < e"
    by (simp add: e)
  with \<open>start < length line\<close>
  show "((line, e, MAX_LINE_OCTETS - 1), (line, start, maxBytes))
        \<in> measure (\<lambda>(line, start, maxBytes). length line - start)"
    by simp
qed

declare foldSegments.simps [simp del]

text \<open>\<open>parts.join(sep)\<close>.\<close>

fun join :: "jsstring \<Rightarrow> jsstring list \<Rightarrow> jsstring" where
  "join sep [] = []"
| "join sep [p] = p"
| "join sep (p # q # ps) = p @ sep @ join sep (q # ps)"

definition foldLine :: "jsstring \<Rightarrow> jsstring" where
  "foldLine line =
     (if byteLength line \<le> MAX_LINE_OCTETS then line @ [CR, LF]
      else join [CR, LF, SP] (foldSegments line 0 MAX_LINE_OCTETS) @ [CR, LF])"

section \<open>generator.ts, parser part: line unfolding\<close>

text \<open>\<open>s.replace(/\n[ \t]/g, '')\<close>: a line feed and the space or tab after it go.\<close>

fun removeFolds :: "jsstring \<Rightarrow> jsstring" where
  "removeFolds (x # y # s) =
     (if x = LF \<and> (y = SP \<or> y = TAB) then removeFolds s else x # removeFolds (y # s))"
| "removeFolds s = s"

text \<open>
  \<open>s.split(sep)\<close> for a separator of one code unit; \<open>cur\<close> is the piece being read.
  The empty string splits into one empty piece.
\<close>

fun splitAcc :: "16 word \<Rightarrow> jsstring \<Rightarrow> jsstring \<Rightarrow> jsstring list" where
  "splitAcc sep cur [] = [cur]"
| "splitAcc sep cur (x # s) =
     (if x = sep then cur # splitAcc sep [] s else splitAcc sep (cur @ [x]) s)"

definition split :: "16 word \<Rightarrow> jsstring \<Rightarrow> jsstring list" where
  "split sep s = splitAcc sep [] s"

definition unfoldLines :: "jsstring \<Rightarrow> jsstring list" where
  "unfoldLines input =
     (let unfolded = removeFolds (replaceUnit CR [LF] (replacePair CR LF [LF] input))
      in filter (\<lambda>line. length line > 0) (split LF unfolded))"

section \<open>Numbers, white space and letter case of the runtime\<close>

text \<open>
  The numbers come from \<open>parseInt\<close>: an integer or \<open>NaN\<close>. The model keeps every
  integer exact, where the runtime holds a double: the two agree as long as the digits
  read denote at most \<open>2^53\<close>, and beyond that the runtime rounds, so that the value
  and the text that \<open>String\<close> prints for it are no longer those of the model. The
  slices that the date codec converts on a reachable branch have at most four code
  units and stay below that bound. The \<open>pref\<close> accessor converts a parameter value of
  any length: for a \<open>PREF\<close> of more than fifteen digits the number of the model, and
  the \<open>got:\<close> text of the validation message built from it, differ from the runtime;
  the statements below about \<open>PREF\<close> are about the verdict of the range check and
  about values of a few digits, where the two agree. \<open>-0\<close> is \<open>Num 0\<close>: \<open>String\<close> prints
  both as \<open>0\<close>.
\<close>

datatype number = NaN | Num int

text \<open>White space as \<open>\s\<close>, \<open>trim\<close> and \<open>parseInt\<close> see it (WhiteSpace and LineTerminator).\<close>

definition isWhiteSpace :: "16 word \<Rightarrow> bool" where
  "isWhiteSpace c =
     (c = 0x09 \<or> c = 0x0A \<or> c = 0x0B \<or> c = 0x0C \<or> c = 0x0D \<or> c = 0x20 \<or> c = 0xA0 \<or>
      c = 0x1680 \<or> (0x2000 \<le> c \<and> c \<le> 0x200A) \<or> c = 0x2028 \<or> c = 0x2029 \<or>
      c = 0x202F \<or> c = 0x205F \<or> c = 0x3000 \<or> c = 0xFEFF)"

definition trim :: "jsstring \<Rightarrow> jsstring" where
  "trim s = rev (dropWhile isWhiteSpace (rev (dropWhile isWhiteSpace s)))"

definition isDigit :: "16 word \<Rightarrow> bool" where
  "isDigit c = (0x30 \<le> c \<and> c \<le> 0x39)"

text \<open>The value of a run of decimal digits, most significant first.\<close>

definition digitsValue :: "jsstring \<Rightarrow> int" where
  "digitsValue ds = foldl (\<lambda>acc d. 10 * acc + (uint d - 0x30)) 0 ds"

text \<open>
  \<open>parseInt(s, 10)\<close>: leading white space is skipped, one sign is read, then the
  longest run of digits; no digit at all gives \<open>NaN\<close>.
\<close>

definition parseInt :: "jsstring \<Rightarrow> number" where
  "parseInt s =
     (let t = dropWhile isWhiteSpace s;
          neg = (t \<noteq> [] \<and> hd t = c16 CHR ''-'');
          r = (if t \<noteq> [] \<and> (hd t = c16 CHR ''+'' \<or> hd t = c16 CHR ''-'') then tl t else t);
          ds = takeWhile isDigit r
      in if ds = [] then NaN
         else Num (if neg then - digitsValue ds else digitsValue ds))"

text \<open>\<open>String(n)\<close> for the numbers above, and \<open>padStart(w, '0')\<close>.\<close>

function decimal :: "nat \<Rightarrow> jsstring" where
  "decimal n = (if n < 10 then [0x30 + of_nat n] else decimal (n div 10) @ [0x30 + of_nat (n mod 10)])"
  by pat_completeness auto
termination
  by (relation "measure (\<lambda>n. n)") auto

declare decimal.simps [simp del]

fun String :: "number \<Rightarrow> jsstring" where
  "String NaN = js ''NaN''"
| "String (Num i) = (if i < 0 then c16 CHR ''-'' # decimal (nat (- i)) else decimal (nat i))"

definition padStart :: "jsstring \<Rightarrow> nat \<Rightarrow> 16 word \<Rightarrow> jsstring" where
  "padStart s w c = replicate (w - length s) c @ s"

text \<open>
  \<open>toUpperCase\<close> and \<open>toLowerCase\<close> follow the Unicode case tables of the runtime,
  which are not part of the repository: the functions that call them take the two
  mappings as the parameter \<open>u\<close>. \<open>basicLatin\<close> is the pair that maps the letters
  \<open>a\<close> to \<open>z\<close> and \<open>A\<close> to \<open>Z\<close> and leaves every other code unit alone; it agrees
  with the runtime on every string of ASCII characters.
\<close>

record casing =
  toUpperCase :: "jsstring \<Rightarrow> jsstring"
  toLowerCase :: "jsstring \<Rightarrow> jsstring"

definition basicLatin :: casing where
  "basicLatin =
     \<lparr>toUpperCase = map (\<lambda>c. if 0x61 \<le> c \<and> c \<le> 0x7A then c - 0x20 else c),
      toLowerCase = map (\<lambda>c. if 0x41 \<le> c \<and> c \<le> 0x5A then c + 0x20 else c)\<rparr>"

text \<open>\<open>s.indexOf(c)\<close> for one code unit; \<open>None\<close> is the source's \<open>-1\<close>.\<close>

fun indexOf :: "jsstring \<Rightarrow> 16 word \<Rightarrow> nat option" where
  "indexOf [] c = None"
| "indexOf (x # s) c = (if x = c then Some 0 else map_option Suc (indexOf s c))"

section \<open>property.ts: date and time values\<close>

record DateAndOrTime =
  year :: "number option"
  month :: "number option"
  day :: "number option"
  hour :: "number option"
  minute :: "number option"
  second :: "number option"
  utcOffset :: "jsstring option"
  hasTime :: bool

text \<open>
  \<open>tp.match(/([Zz]|[+-]\d{2}:?\d{2})$/)\<close>: the captured suffix. The three shapes (sign,
  two digits, colon, two digits; sign and four digits; \<open>Z\<close> or \<open>z\<close>) exclude each other.
\<close>

definition offsetMatch :: "jsstring \<Rightarrow> jsstring option" where
  "offsetMatch tp =
     (let n = length tp; s6 = drop (n - 6) tp; s5 = drop (n - 5) tp; s1 = drop (n - 1) tp;
          sign = (\<lambda>c. c = c16 CHR ''+'' \<or> c = c16 CHR ''-'')
      in if 6 \<le> n \<and> sign (s6 ! 0) \<and> isDigit (s6 ! 1) \<and> isDigit (s6 ! 2) \<and> s6 ! 3 = c16 CHR '':'' \<and>
            isDigit (s6 ! 4) \<and> isDigit (s6 ! 5) then Some s6
         else if 5 \<le> n \<and> sign (s5 ! 0) \<and> isDigit (s5 ! 1) \<and> isDigit (s5 ! 2) \<and>
            isDigit (s5 ! 3) \<and> isDigit (s5 ! 4) then Some s5
         else if 1 \<le> n \<and> (s1 = [c16 CHR ''Z''] \<or> s1 = [c16 CHR ''z'']) then Some s1
         else None)"

definition parseDateAndOrTime :: "casing \<Rightarrow> jsstring \<Rightarrow> DateAndOrTime option" where
  "parseDateAndOrTime u value =
     (if value = [] then None
      else
        let v = filter (\<lambda>c. \<not> isWhiteSpace c) value;
            tIndex = indexOf (toUpperCase u v) (c16 CHR ''T'');
            datePart = (case tIndex of None \<Rightarrow> v | Some i \<Rightarrow> slice v 0 i);
            timePart = (case tIndex of None \<Rightarrow> [] | Some i \<Rightarrow> drop (i + 1) v);
            hasTime = (timePart \<noteq> []);
            dashes = (\<lambda>s. replaceUnit (c16 CHR ''-'') [] s);
            (year, month, day) =
              (if datePart \<noteq> [] then
                 (if startsWith datePart (js ''--'') then
                    (let d = dashes (drop 2 datePart)
                     in (None,
                         if 2 \<le> length d then Some (parseInt (slice d 0 2)) else None,
                         if 4 \<le> length d then Some (parseInt (slice d 2 4)) else None))
                  else if startsWith datePart (js ''---'') then
                    (None, None, Some (parseInt (drop 3 datePart)))
                  else
                    (let clean = dashes datePart
                     in (if 4 \<le> length clean then Some (parseInt (slice clean 0 4)) else None,
                         if 6 \<le> length clean then Some (parseInt (slice clean 4 6)) else None,
                         if 8 \<le> length clean then Some (parseInt (slice clean 6 8)) else None)))
               else (None, None, None));
            (hour, minute, second, utcOffset) =
              (if timePart \<noteq> [] then
                 (let m = offsetMatch timePart;
                      utcOffset = map_option (toUpperCase u) m;
                      tp = (case m of None \<Rightarrow> timePart
                            | Some off \<Rightarrow> slice timePart 0 (length timePart - length off));
                      clean = replaceUnit (c16 CHR '':'') [] tp
                  in (if 2 \<le> length clean then Some (parseInt (slice clean 0 2)) else None,
                      if 4 \<le> length clean then Some (parseInt (slice clean 2 4)) else None,
                      if 6 \<le> length clean then Some (parseInt (slice clean 4 6)) else None,
                      utcOffset))
               else (None, None, None, None))
        in Some \<lparr>year = year, month = month, day = day, hour = hour, minute = minute,
                 second = second, utcOffset = utcOffset, hasTime = hasTime\<rparr>)"

text \<open>\<open>x !== undefined\<close> for an optional field.\<close>

definition defined :: "'a option \<Rightarrow> bool" where
  "defined x = (x \<noteq> None)"

definition pad :: "number \<Rightarrow> nat \<Rightarrow> jsstring" where
  "pad n w = padStart (String n) w (c16 CHR ''0'')"

definition formatDateAndOrTime :: "DateAndOrTime \<Rightarrow> jsstring" where
  "formatDateAndOrTime dt =
     (let datePart =
            (if defined (year dt) \<or> defined (month dt) \<or> defined (day dt) then
               (if year dt = None \<and> defined (month dt) then
                  js ''--'' @ pad (the (month dt)) 2 @
                    (case day dt of Some d \<Rightarrow> pad d 2 | None \<Rightarrow> [])
                else if year dt = None \<and> defined (day dt) then
                  js ''---'' @ pad (the (day dt)) 2
                else
                  (case year dt of Some y \<Rightarrow> pad y 4 | None \<Rightarrow> []) @
                  (case month dt of Some m \<Rightarrow> pad m 2 | None \<Rightarrow> []) @
                  (case day dt of Some d \<Rightarrow> pad d 2 | None \<Rightarrow> []))
             else []);
          timePart =
            (if hasTime dt \<and> (defined (hour dt) \<or> defined (minute dt) \<or> defined (second dt)) then
               js ''T'' @
               (case hour dt of Some h \<Rightarrow> pad h 2 | None \<Rightarrow> []) @
               (case minute dt of Some m \<Rightarrow> pad m 2 | None \<Rightarrow> []) @
               (case second dt of Some s \<Rightarrow> pad s 2 | None \<Rightarrow> []) @
               (case utcOffset dt of Some off \<Rightarrow> off | None \<Rightarrow> [])
             else [])
      in datePart @ timePart)"

section \<open>types.ts: parameter maps\<close>

text \<open>
  \<open>ParameterMap = Map<string, string | string[]>\<close>. A \<open>Map\<close> keeps its keys in
  insertion order, and \<open>set\<close> on a present key replaces the value in place; it is
  modelled as an association list with distinct keys.
\<close>

datatype pvalue = Scalar jsstring | Multi "jsstring list"

type_synonym ParameterMap = "(jsstring \<times> pvalue) list"

definition mapGet :: "ParameterMap \<Rightarrow> jsstring \<Rightarrow> pvalue option" where
  "mapGet m k = map_of m k"

fun mapSet :: "ParameterMap \<Rightarrow> jsstring \<Rightarrow> pvalue \<Rightarrow> ParameterMap" where
  "mapSet [] k v = [(k, v)]"
| "mapSet ((k', v') # m) k v = (if k' = k then (k, v) # m else (k', v') # mapSet m k v)"

section \<open>generator.ts, parser part: parameters\<close>

text \<open>\<open>ParseWarning = { line?: number; message: string }\<close>.\<close>

datatype ParseWarning = Warning "nat option" jsstring

text \<open>
  \<open>splitParamString\<close>: the loop over the characters of \<open>s\<close>, with the source's
  \<open>parts\<close>, \<open>current\<close> and \<open>inQuotes\<close>; the last piece is pushed when it is not empty.
\<close>

fun splitParamLoop :: "jsstring \<Rightarrow> jsstring list \<Rightarrow> jsstring \<Rightarrow> bool \<Rightarrow> jsstring list" where
  "splitParamLoop [] parts current inQuotes =
     (if current \<noteq> [] then parts @ [current] else parts)"
| "splitParamLoop (ch # s) parts current inQuotes =
     (if ch = dquote then splitParamLoop s parts (current @ [ch]) (\<not> inQuotes)
      else if ch = c16 CHR '';'' \<and> \<not> inQuotes then splitParamLoop s (parts @ [current]) [] inQuotes
      else splitParamLoop s parts (current @ [ch]) inQuotes)"

definition splitParamString :: "jsstring \<Rightarrow> jsstring list" where
  "splitParamString s = splitParamLoop s [] [] False"

text \<open>
  The merge of a value into the map, as \<open>parseParameters\<close> writes it out twice (for a
  bare token under \<open>TYPE\<close>, and for \<open>name=value\<close>): a new name gets a scalar, a scalar
  becomes the list of the old and the new value, a list gets the value pushed.
\<close>

definition mergeParam :: "ParameterMap \<Rightarrow> jsstring \<Rightarrow> jsstring \<Rightarrow> ParameterMap" where
  "mergeParam m k v =
     (case mapGet m k of
        None \<Rightarrow> mapSet m k (Scalar v)
      | Some (Multi existing) \<Rightarrow> mapSet m k (Multi (existing @ [v]))
      | Some (Scalar existing) \<Rightarrow> mapSet m k (Multi [existing, v]))"

text \<open>\<open>/^[A-Z0-9-]+$/.test(s)\<close>.\<close>

definition isBareToken :: "jsstring \<Rightarrow> bool" where
  "isBareToken s =
     (s \<noteq> [] \<and> list_all (\<lambda>c. (0x41 \<le> c \<and> c \<le> 0x5A) \<or> isDigit c \<or> c = c16 CHR ''-'') s)"

text \<open>One round of the loop of \<open>parseParameters\<close> over \<open>parts\<close>.\<close>

definition parseParameter ::
  "casing \<Rightarrow> ParameterMap \<times> ParseWarning list \<Rightarrow> jsstring \<Rightarrow> ParameterMap \<times> ParseWarning list" where
  "parseParameter u st part =
     (let (m, ws) = st in
      if trim part = [] then (m, ws)
      else case indexOf part (c16 CHR ''='') of
        None \<Rightarrow>
          (let upperPart = toUpperCase u (trim part) in
           if isBareToken upperPart then (mergeParam m (js ''TYPE'') (toLowerCase u upperPart), ws)
           else (m, ws @ [Warning None (js ''Ignoring malformed parameter: '' @ part)]))
      | Some eq \<Rightarrow>
          (let pname = toUpperCase u (trim (slice part 0 eq));
               rawValue = trim (drop (eq + 1) part);
               v = unquoteParamValue rawValue
           in (mergeParam m pname v, ws)))"

definition parseParameters ::
  "casing \<Rightarrow> jsstring \<Rightarrow> ParseWarning list \<Rightarrow> ParameterMap \<times> ParseWarning list" where
  "parseParameters u paramStr ws =
     (if paramStr = [] then ([], ws)
      else foldl (parseParameter u) ([], ws) (splitParamString paramStr))"

section \<open>property.ts: the TYPE accessor\<close>

text \<open>
  \<open>get type()\<close> of \<open>Property\<close>, on the property's \<open>params\<close>: a missing or empty
  \<open>TYPE\<close> gives no value; otherwise every stored value is split on commas, and the
  pieces are lower-cased and trimmed.
\<close>

definition "type" :: "casing \<Rightarrow> ParameterMap \<Rightarrow> jsstring list" where
  "type u params =
     (case mapGet params (js ''TYPE'') of
        None \<Rightarrow> []
      | Some (Scalar v) \<Rightarrow>
          (if v = [] then [] else map (\<lambda>x. trim (toLowerCase u x)) (split (c16 CHR '','') v))
      | Some (Multi vals) \<Rightarrow>
          concat (map (\<lambda>s. map (\<lambda>x. trim (toLowerCase u x)) (split (c16 CHR '','') s)) vals))"

section \<open>generator.ts, parser part: content lines and blocks\<close>

text \<open>
  \<open>RawProperty\<close> and \<open>Property\<close> both start with the fields \<open>group\<close> and \<open>name\<close>; the
  two records extend one record of these fields so that they can share the names.
\<close>

record PropertyHead =
  group :: "jsstring option"
  name :: jsstring

record RawProperty = PropertyHead +
  parameters :: ParameterMap
  "value" :: jsstring

text \<open>The first colon outside double quotes: the loop of \<open>parseContentLine\<close>.\<close>

fun findColon :: "jsstring \<Rightarrow> nat \<Rightarrow> bool \<Rightarrow> nat option" where
  "findColon [] i inQuotes = None"
| "findColon (ch # s) i inQuotes =
     (if ch = dquote then findColon s (i + 1) (\<not> inQuotes)
      else if ch = c16 CHR '':'' \<and> \<not> inQuotes then Some i
      else findColon s (i + 1) inQuotes)"

definition parseContentLine ::
  "casing \<Rightarrow> jsstring \<Rightarrow> ParseWarning list \<Rightarrow> RawProperty option \<times> ParseWarning list" where
  "parseContentLine u ln ws =
     (case findColon ln 0 False of
        None \<Rightarrow> (None, ws @ [Warning None (js ''Skipping line with no colon: '' @ slice ln 0 40)])
      | Some colonIdx \<Rightarrow>
          (let namePart = slice ln 0 colonIdx;
               v = drop (colonIdx + 1) ln;
               semiIdx = indexOf namePart (c16 CHR '';'');
               nameAndGroup = (case semiIdx of None \<Rightarrow> namePart | Some i \<Rightarrow> slice namePart 0 i);
               paramStr = (case semiIdx of None \<Rightarrow> [] | Some i \<Rightarrow> drop (i + 1) namePart);
               (g, n) =
                 (case indexOf nameAndGroup (c16 CHR ''.'') of
                    Some dotIdx \<Rightarrow>
                      (Some (trim (slice nameAndGroup 0 dotIdx)),
                       toUpperCase u (trim (drop (dotIdx + 1) nameAndGroup)))
                  | None \<Rightarrow> (None, toUpperCase u (trim nameAndGroup)))
           in if n = [] then
                (None, ws @ [Warning None (js ''Skipping line with empty property name'')])
              else
                (let (ps, ws') = parseParameters u paramStr ws
                 in (Some \<lparr>group = g, name = n, parameters = ps, value = v\<rparr>, ws'))))"

text \<open>
  \<open>RawVCard\<close>. The typed property classes are the field-typing layer: the assembler
  only passes on what \<open>instantiateProperty\<close> returns, so the property type is the
  parameter \<open>'p\<close>, and \<open>instantiateProperty\<close> is the parameter \<open>inst\<close> that gives, for a
  raw property, the property and the warnings it pushes.
\<close>

record 'p RawVCard =
  version :: jsstring
  properties :: "'p list"
  warnings :: "ParseWarning list"

text \<open>One round of the loop of \<open>parseVCardBlock\<close>.\<close>

definition parseBlockLine ::
  "(RawProperty \<Rightarrow> 'p \<times> ParseWarning list) \<Rightarrow> casing \<Rightarrow> 'p RawVCard \<Rightarrow> jsstring \<Rightarrow> 'p RawVCard" where
  "parseBlockLine inst u vc ln =
     (let upper = toUpperCase u ln in
      if startsWith upper (js ''VERSION:'') then vc\<lparr>version := trim (drop 8 ln)\<rparr>
      else case parseContentLine u ln (warnings vc) of
        (None, ws) \<Rightarrow> vc\<lparr>warnings := ws\<rparr>
      | (Some raw, ws) \<Rightarrow>
          if name raw = js ''VERSION'' then vc\<lparr>version := trim (value raw), warnings := ws\<rparr>
          else (let (prop, pushed) = inst raw
                in vc\<lparr>properties := properties vc @ [prop], warnings := ws @ pushed\<rparr>))"

definition parseVCardBlock ::
  "(RawProperty \<Rightarrow> 'p \<times> ParseWarning list) \<Rightarrow> casing \<Rightarrow> jsstring list \<Rightarrow> ParseWarning list
     \<Rightarrow> 'p RawVCard" where
  "parseVCardBlock inst u lines ws =
     foldl (parseBlockLine inst u) \<lparr>version = js ''4.0'', properties = [], warnings = ws\<rparr> lines"

text \<open>
  \<open>ParseResult\<close> (its \<open>warnings\<close> field is \<open>allWarnings\<close> here, \<open>warnings\<close> being the
  field of \<open>RawVCard\<close>).
\<close>

record 'p ParseResult =
  rawVCards :: "'p RawVCard list"
  allWarnings :: "ParseWarning list"

text \<open>The two markers as \<open>parseVCardText\<close> tests them: \<open>line.toUpperCase().trim()\<close>.\<close>

definition isBegin :: "casing \<Rightarrow> jsstring \<Rightarrow> bool" where
  "isBegin u ln = (trim (toUpperCase u ln) = js ''BEGIN:VCARD'')"

definition isEnd :: "casing \<Rightarrow> jsstring \<Rightarrow> bool" where
  "isEnd u ln = (trim (toUpperCase u ln) = js ''END:VCARD'')"

text \<open>
  The loop of \<open>parseVCardText\<close> from index \<open>i\<close> over the remaining lines, on the
  state \<open>inVCard\<close>, \<open>currentLines\<close>, \<open>rawVCards\<close>, \<open>warnings\<close>; the result is the state
  when the lines are used up.
\<close>

fun blocksLoop ::
  "(RawProperty \<Rightarrow> 'p \<times> ParseWarning list) \<Rightarrow> casing \<Rightarrow> nat \<Rightarrow> jsstring list \<Rightarrow>
     bool \<times> jsstring list \<times> 'p RawVCard list \<times> ParseWarning list \<Rightarrow>
     bool \<times> jsstring list \<times> 'p RawVCard list \<times> ParseWarning list" where
  "blocksLoop inst u i [] st = st"
| "blocksLoop inst u i (ln # rest) (inVCard, currentLines, cards, ws) =
     (if isBegin u ln then blocksLoop inst u (i + 1) rest (True, [], cards, ws)
      else if isEnd u ln then
        (if \<not> inVCard then
           blocksLoop inst u (i + 1) rest
             (inVCard, currentLines, cards,
              ws @ [Warning (Some (i + 1)) (js ''Unexpected END:VCARD without BEGIN:VCARD'')])
         else
           (let vc = parseVCardBlock inst u currentLines []
            in blocksLoop inst u (i + 1) rest (False, [], cards @ [vc], ws @ warnings vc)))
      else if inVCard then blocksLoop inst u (i + 1) rest (inVCard, currentLines @ [ln], cards, ws)
      else blocksLoop inst u (i + 1) rest (inVCard, currentLines, cards, ws))"

text \<open>The end of \<open>parseVCardText\<close>: an unclosed block is parsed with what it has.\<close>

definition unclosedWarning :: ParseWarning where
  "unclosedWarning =
     Warning None (js ''Unclosed vCard (missing END:VCARD) '' @ [0x2014] @ js '' parsing anyway'')"

definition finishBlocks ::
  "(RawProperty \<Rightarrow> 'p \<times> ParseWarning list) \<Rightarrow> casing \<Rightarrow>
     bool \<times> jsstring list \<times> 'p RawVCard list \<times> ParseWarning list \<Rightarrow> 'p ParseResult" where
  "finishBlocks inst u st =
     (let (inVCard, currentLines, cards, ws) = st in
      if inVCard then
        (let vc = parseVCardBlock inst u currentLines [unclosedWarning]
         in \<lparr>rawVCards = cards @ [vc], allWarnings = ws @ warnings vc\<rparr>)
      else \<lparr>rawVCards = cards, allWarnings = ws\<rparr>)"

definition parseVCardText ::
  "(RawProperty \<Rightarrow> 'p \<times> ParseWarning list) \<Rightarrow> casing \<Rightarrow> jsstring \<Rightarrow> 'p ParseResult" where
  "parseVCardText inst u input =
     finishBlocks inst u (blocksLoop inst u 0 (unfoldLines input) (False, [], [], []))"

section \<open>generator.ts, parser part: quoted-printable\<close>

text \<open>The octets of a \<open>Buffer\<close>.\<close>

type_synonym octet = "8 word"

text \<open>\<open>encoded.replace(/=\r?\n/g, '')\<close>: an equals sign and the line break after it go.\<close>

fun removeSoftBreaks :: "jsstring \<Rightarrow> jsstring" where
  "removeSoftBreaks (a # b # c # s) =
     (if a = c16 CHR ''='' \<and> b = CR \<and> c = LF then removeSoftBreaks s
      else if a = c16 CHR ''='' \<and> b = LF then removeSoftBreaks (c # s)
      else a # removeSoftBreaks (b # c # s))"
| "removeSoftBreaks [a, b] = (if a = c16 CHR ''='' \<and> b = LF then [] else [a, b])"
| "removeSoftBreaks s = s"

text \<open>\<open>/^[0-9A-Fa-f]{2}$/\<close> on two code units, and \<open>parseInt(hex, 16)\<close> on such a pair.\<close>

definition isHexDigit :: "16 word \<Rightarrow> bool" where
  "isHexDigit c = (isDigit c \<or> (0x41 \<le> c \<and> c \<le> 0x46) \<or> (0x61 \<le> c \<and> c \<le> 0x66))"

definition hexValue :: "16 word \<Rightarrow> nat" where
  "hexValue c =
     (if isDigit c then unat c - 0x30
      else if 0x41 \<le> c \<and> c \<le> 0x46 then unat c - 0x41 + 10
      else unat c - 0x61 + 10)"

text \<open>
  \<open>Buffer.from(ch, 'utf8')\<close> for a string of one code unit \<open>ch\<close>: one octet below
  \<open>0x80\<close>, two below \<open>0x800\<close>, three above; a lone surrogate is encoded as U+FFFD.
\<close>

definition unitToUtf8 :: "16 word \<Rightarrow> octet list" where
  "unitToUtf8 ch =
     (let n = unat ch in
      if n < 0x80 then [of_nat n]
      else if n < 0x800 then [of_nat (0xC0 + n div 64), of_nat (0x80 + n mod 64)]
      else if isHighSurrogate ch \<or> isLowSurrogate ch then [0xEF, 0xBF, 0xBD]
      else [of_nat (0xE0 + n div 4096), of_nat (0x80 + (n div 64) mod 64), of_nat (0x80 + n mod 64)])"

text \<open>
  The loop of \<open>decodeQuotedPrintable\<close> that collects \<open>bytes\<close>: an equals sign with at
  least two more units after it (\<open>i + 2 < length\<close>) that are hexadecimal digits gives
  one octet; any other unit gives its own octet, or its UTF-8 octets from \<open>0x80\<close> on.
\<close>

fun qpBytes :: "jsstring \<Rightarrow> octet list" where
  "qpBytes (ch # h1 # h2 # s) =
     (if ch = c16 CHR ''='' \<and> isHexDigit h1 \<and> isHexDigit h2
      then of_nat (16 * hexValue h1 + hexValue h2) # qpBytes s
      else (if unat ch < 128 then [of_nat (unat ch)] else unitToUtf8 ch) @ qpBytes (h1 # h2 # s))"
| "qpBytes (ch # s) = (if unat ch < 128 then [of_nat (unat ch)] else unitToUtf8 ch) @ qpBytes s"
| "qpBytes [] = []"

text \<open>The UTF-16 code units of a code point.\<close>

definition fromCodePoint :: "nat \<Rightarrow> jsstring" where
  "fromCodePoint cp =
     (if cp < 0x10000 then [of_nat cp]
      else [of_nat (0xD800 + (cp - 0x10000) div 0x400), of_nat (0xDC00 + (cp - 0x10000) mod 0x400)])"

text \<open>
  \<open>Buffer.from(bytes).toString('utf8')\<close>: the UTF-8 decoder of the runtime, with its
  state: the code point read so far, the number of continuation octets still needed
  and the bounds of the next one. An octet that cannot continue or start a sequence
  gives U+FFFD, and an octet that broke a sequence is read again as a first octet.
\<close>

function utf8Decode :: "nat \<Rightarrow> nat \<Rightarrow> octet \<Rightarrow> octet \<Rightarrow> octet list \<Rightarrow> jsstring" where
  "utf8Decode cp needed lower upper [] = (if needed \<noteq> 0 then [0xFFFD] else [])"
| "utf8Decode cp needed lower upper (b # bs) =
     (if needed = 0 then
        (if b \<le> 0x7F then of_nat (unat b) # utf8Decode 0 0 0x80 0xBF bs
         else if 0xC2 \<le> b \<and> b \<le> 0xDF then utf8Decode (unat b mod 32) 1 0x80 0xBF bs
         else if 0xE0 \<le> b \<and> b \<le> 0xEF then
           utf8Decode (unat b mod 16) 2 (if b = 0xE0 then 0xA0 else 0x80)
             (if b = 0xED then 0x9F else 0xBF) bs
         else if 0xF0 \<le> b \<and> b \<le> 0xF4 then
           utf8Decode (unat b mod 8) 3 (if b = 0xF0 then 0x90 else 0x80)
             (if b = 0xF4 then 0x8F else 0xBF) bs
         else 0xFFFD # utf8Decode 0 0 0x80 0xBF bs)
      else if b < lower \<or> upper < b then 0xFFFD # utf8Decode 0 0 0x80 0xBF (b # bs)
      else if needed = 1 then fromCodePoint (cp * 64 + unat b mod 64) @ utf8Decode 0 0 0x80 0xBF bs
      else utf8Decode (cp * 64 + unat b mod 64) (needed - 1) 0x80 0xBF bs)"
  by pat_completeness auto
termination
  by (relation "measure (\<lambda>(cp, needed, lower, upper, bs). 2 * length bs + (if needed = 0 then 0 else 1))")
    auto

declare utf8Decode.simps [simp del]

definition decodeQuotedPrintable :: "jsstring \<Rightarrow> jsstring" where
  "decodeQuotedPrintable encoded = utf8Decode 0 0 0x80 0xBF (qpBytes (removeSoftBreaks encoded))"

text \<open>
  The quoted-printable form of an octet, \<open>=XX\<close> with upper-case digits. The repository
  has no encoder; this one states what \<open>decodeQuotedPrintable\<close> is given.
\<close>

definition hexDigit :: "nat \<Rightarrow> 16 word" where
  "hexDigit d = (if d < 10 then of_nat (0x30 + d) else of_nat (0x41 + (d - 10)))"

definition qpTriplet :: "octet \<Rightarrow> jsstring" where
  "qpTriplet b = [c16 CHR ''='', hexDigit (unat b div 16), hexDigit (unat b mod 16)]"

section \<open>property.ts: properties\<close>

text \<open>Thrown values: \<open>VCardError(message, property)\<close>, and the \<open>TypeError\<close> of the runtime.\<close>

datatype error = VCardError jsstring "jsstring option" | TypeError

text \<open>
  A \<open>Date\<close> is the UTC fields its getters return (year, month from 0, day of month,
  hours, minutes, seconds), or the invalid date, whose time value is \<open>NaN\<close>.
\<close>

datatype jsdate = InvalidDate | UTCDate int int int int int int

fun dateFields :: "jsdate \<Rightarrow> number list" where
  "dateFields InvalidDate = [NaN, NaN, NaN, NaN, NaN, NaN]"
| "dateFields (UTCDate y mo d h mi s) = [Num y, Num (mo + 1), Num d, Num h, Num mi, Num s]"

text \<open>
  The property classes that the generator's validation looks into, by what they
  store and how \<open>toContentLine\<close> prints it: \<open>TextProperty\<close> (and its subclasses that
  do not override \<open>toContentLine\<close>, \<open>FNProperty\<close> among them) with \<open>value\<close>,
  \<open>UriProperty\<close> with \<open>value\<close>, \<open>GenderProperty\<close> with \<open>value.sex\<close> and
  \<open>value.identity\<close>, \<open>RevProperty\<close> with a \<open>Date\<close> or a string as \<open>value\<close>, and
  \<open>UnknownProperty\<close> with \<open>rawValue\<close>. The other classes differ in \<open>toContentLine\<close>
  only and are left out. \<open>name\<close> is the name as the constructor stored it.
\<close>

datatype content =
    TextValue jsstring
  | UriValue jsstring
  | GenderValue jsstring "jsstring option"
  | RevDate jsdate
  | RevText jsstring
  | UnknownValue jsstring

record Property = PropertyHead +
  params :: ParameterMap
  content :: content

definition escapeStructuredComponent :: "jsstring \<Rightarrow> jsstring" where
  "escapeStructuredComponent s =
     replaceUnit (c16 CHR '','') [backslash, c16 CHR '','']
       (replaceUnit (c16 CHR '';'') [backslash, c16 CHR '';'']
         (replaceUnit LF [backslash, c16 CHR ''n'']
           (replaceUnit backslash [backslash, backslash] s)))"

definition toContentLine :: "Property \<Rightarrow> jsstring" where
  "toContentLine p =
     (case content p of
        TextValue v \<Rightarrow> escapeText v
      | UriValue v \<Rightarrow> v
      | GenderValue sex identity \<Rightarrow>
          (case identity of
             None \<Rightarrow> sex
           | Some i \<Rightarrow> if i = [] then sex else sex @ js '';'' @ escapeStructuredComponent i)
      | RevDate d \<Rightarrow>
          (case dateFields d of
             [y, mo, dd, h, mi, s] \<Rightarrow>
               pad y 4 @ pad mo 2 @ pad dd 2 @ js ''T'' @ pad h 2 @ pad mi 2 @ pad s 2 @ js ''Z''
           | _ \<Rightarrow> [])
      | RevText v \<Rightarrow> v
      | UnknownValue v \<Rightarrow> v)"

text \<open>
  \<open>get pref()\<close>: no number for a missing, empty or list-valued \<open>PREF\<close>, nor for one
  that \<open>parseInt\<close> cannot read.
\<close>

definition pref :: "Property \<Rightarrow> number option" where
  "pref p =
     (case mapGet (params p) (js ''PREF'') of
        None \<Rightarrow> None
      | Some (Multi vs) \<Rightarrow> None
      | Some (Scalar v) \<Rightarrow>
          if v = [] then None
          else (case parseInt v of NaN \<Rightarrow> None | Num n \<Rightarrow> Some (Num n)))"

section \<open>generator.ts: serialization\<close>

text \<open>\<open>serializeParameters\<close>: one \<open>NAME=value\<close> piece per entry, joined with semicolons.\<close>

definition serializeParameter :: "jsstring \<times> pvalue \<Rightarrow> jsstring list" where
  "serializeParameter entry =
     (case entry of
        (pname, Multi vs) \<Rightarrow>
          if vs = [] then []
          else [pname @ js ''='' @ join (js '','') (map quoteParamValue vs)]
      | (pname, Scalar v) \<Rightarrow> [pname @ js ''='' @ quoteParamValue v])"

definition serializeParameters :: "ParameterMap \<Rightarrow> jsstring" where
  "serializeParameters ps = join (js '';'') (concat (map serializeParameter ps))"

definition serializeProperty :: "Property \<Rightarrow> jsstring" where
  "serializeProperty prop =
     (let namePart = (case group prop of
                        Some g \<Rightarrow> if g \<noteq> [] then g @ js ''.'' @ name prop else name prop
                      | None \<Rightarrow> name prop);
          paramStr = serializeParameters (params prop);
          separator = (if paramStr \<noteq> [] then js '';'' @ paramStr else [])
      in foldLine (namePart @ separator @ js '':'' @ toContentLine prop))"

text \<open>\<open>GenerateOptions\<close>; \<open>serializeVCard\<close> reads \<open>validate\<close> only.\<close>

record GenerateOptions =
  validate :: "bool option"

definition PROPERTY_ORDER :: "(jsstring \<times> nat) list" where
  "PROPERTY_ORDER =
     [(js ''FN'', 1), (js ''N'', 2), (js ''NICKNAME'', 3), (js ''GENDER'', 4), (js ''BDAY'', 5),
      (js ''ANNIVERSARY'', 6), (js ''ORG'', 7), (js ''TITLE'', 8), (js ''ROLE'', 9),
      (js ''EMAIL'', 10), (js ''TEL'', 11), (js ''ADR'', 12), (js ''URL'', 13), (js ''IMPP'', 14),
      (js ''LANG'', 15), (js ''TZ'', 16), (js ''GEO'', 17), (js ''PHOTO'', 18), (js ''LOGO'', 19),
      (js ''SOUND'', 20), (js ''NOTE'', 21), (js ''CATEGORIES'', 22), (js ''SOURCE'', 23),
      (js ''XML'', 24), (js ''KEY'', 25), (js ''FBURL'', 26), (js ''CALADRURI'', 27),
      (js ''CALURI'', 28), (js ''MEMBER'', 29), (js ''RELATED'', 30), (js ''UID'', 31),
      (js ''REV'', 32), (js ''PRODID'', 33), (js ''KIND'', 34), (js ''CLIENTPIDMAP'', 35)]"

text \<open>
  \<open>orderProperties\<close>: the runtime's sort is stable, as \<open>sort_key\<close> is. (Names are
  upper-cased by the constructor, so no inherited key of the table object is hit.)
\<close>

definition orderProperties :: "Property list \<Rightarrow> Property list" where
  "orderProperties ps =
     sort_key (\<lambda>p. case map_of PROPERTY_ORDER (name p) of Some n \<Rightarrow> n | None \<Rightarrow> 100) ps"

text \<open>
  The four checks of \<open>validateForGeneration\<close>, each the first throw of its loop;
  \<open>None\<close> when the loop ends without a throw.
\<close>

definition numLess :: "number \<Rightarrow> int \<Rightarrow> bool" where
  "numLess n k = (case n of NaN \<Rightarrow> False | Num i \<Rightarrow> i < k)"

definition numGreater :: "number \<Rightarrow> int \<Rightarrow> bool" where
  "numGreater n k = (case n of NaN \<Rightarrow> False | Num i \<Rightarrow> k < i)"

definition isInteger :: "number \<Rightarrow> bool" where
  "isInteger n = (case n of NaN \<Rightarrow> False | Num i \<Rightarrow> True)"

fun checkPref :: "Property list \<Rightarrow> error option" where
  "checkPref [] = None"
| "checkPref (prop # ps) =
     (case pref prop of
        None \<Rightarrow> checkPref ps
      | Some n \<Rightarrow>
          if numLess n 1 \<or> numGreater n 100 \<or> \<not> isInteger n then
            Some (VCardError
                   (js ''PREF parameter on '' @ name prop @
                    js '' must be an integer between 1 and 100, got: '' @ String n)
                   (Some (name prop)))
          else checkPref ps)"

text \<open>
  \<open>gp.value.sex\<close> after the unchecked cast: the sex of a gender value, \<open>undefined\<close>
  (\<open>None\<close>) on a string or a date, and a \<open>TypeError\<close> where there is no \<open>value\<close>.
\<close>

fun checkGender :: "Property list \<Rightarrow> error option" where
  "checkGender [] = None"
| "checkGender (prop # ps) =
     (if name prop = js ''GENDER'' then
        (case content prop of
           UnknownValue v \<Rightarrow> Some TypeError
         | GenderValue sex identity \<Rightarrow>
             if sex \<in> set [js ''M'', js ''F'', js ''O'', js ''N'', js ''U'', []] then checkGender ps
             else Some (VCardError
                         (js ''Invalid GENDER sex value: '' @ sex @
                          js ''. Must be one of M, F, O, N, U'')
                         (Some (js ''GENDER'')))
         | _ \<Rightarrow> Some (VCardError
                         (js ''Invalid GENDER sex value: undefined. Must be one of M, F, O, N, U'')
                         (Some (js ''GENDER''))))
      else checkGender ps)"

fun checkRev :: "Property list \<Rightarrow> error option" where
  "checkRev [] = None"
| "checkRev (prop # ps) =
     (if name prop = js ''REV'' \<and> content prop = RevDate InvalidDate
      then Some (VCardError (js ''REV property contains invalid date'') (Some (js ''REV'')))
      else checkRev ps)"

definition validateForGeneration :: "Property list \<Rightarrow> error option" where
  "validateForGeneration ps =
     (if filter (\<lambda>p. name p = js ''FN'') ps = []
      then Some (VCardError (js ''Missing required property: FN'') (Some (js ''FN'')))
      else case checkPref ps of
        Some e \<Rightarrow> Some e
      | None \<Rightarrow> (case checkGender ps of Some e \<Rightarrow> Some e | None \<Rightarrow> checkRev ps))"

definition serializeVCard :: "Property list \<Rightarrow> GenerateOptions \<Rightarrow> error + jsstring" where
  "serializeVCard ps options =
     (case (if validate options = Some False then None else validateForGeneration ps) of
        Some e \<Rightarrow> Inl e
      | None \<Rightarrow>
          Inr (js ''BEGIN:VCARD'' @ [CR, LF] @ js ''VERSION:4.0'' @ [CR, LF] @
               concat (map serializeProperty
                        (orderProperties (filter (\<lambda>p. name p \<noteq> js ''VERSION'') ps))) @
               js ''END:VCARD'' @ [CR, LF]))"

section \<open>Text escaping\<close>

lemma replaceUnit_Nil: "replaceUnit c r [] = []"
  by (simp add: replaceUnit_def)

lemma replaceUnit_Cons:
  "replaceUnit c r (x # s) = (if x = c then r else [x]) @ replaceUnit c r s"
  by (simp add: replaceUnit_def)

lemma replaceUnit_append:
  "replaceUnit c r (s @ t) = replaceUnit c r s @ replaceUnit c r t"
  by (simp add: replaceUnit_def)

lemma escapeText_Nil: "escapeText [] = []"
  by (simp add: escapeText_def replaceUnit_Nil)

lemma escapeText_Cons:
  "escapeText (x # s) =
     (if x = backslash then [backslash, backslash]
      else if x = LF then [backslash, c16 CHR ''n'']
      else if x = c16 CHR '','' then [backslash, c16 CHR '','']
      else if x = c16 CHR '';'' then [backslash, c16 CHR '';'']
      else [x]) @ escapeText s"
  by (simp add: escapeText_def replaceUnit_Cons replaceUnit_append replaceUnit_Nil)

lemma unescapeText_plain:
  "x \<noteq> backslash \<Longrightarrow> unescapeText (x # s) = x # unescapeText s"
  by (cases s) simp_all

text \<open>
  C2. For every string \<open>x\<close>, unescaping the escaped form of \<open>x\<close> gives \<open>x\<close> back:
  \<open>unescapeText(escapeText(x)) == x\<close>.
\<close>

theorem unescapeText_escapeText: "unescapeText (escapeText x) = x"
proof (induction x)
  case Nil
  show ?case by (simp add: escapeText_Nil)
next
  case (Cons c x)
  show ?case
  proof (cases "c = backslash \<or> c = LF \<or> c = c16 CHR '','' \<or> c = c16 CHR '';''")
    case True
    then show ?thesis using Cons.IH by (auto simp: escapeText_Cons)
  next
    case False
    then show ?thesis using Cons.IH by (simp add: escapeText_Cons unescapeText_plain)
  qed
qed

lemma unescapeText_unknown:
  "c \<notin> {backslash, c16 CHR ''n'', c16 CHR ''N'', c16 CHR '','', c16 CHR '';''} \<Longrightarrow>
   unescapeText (backslash # c # s) = backslash # unescapeText (c # s)"
  by simp

text \<open>
  C3. \<open>unescapeText\<close> recognises the sequences \<open>\\\<close>, \<open>\n\<close>, \<open>\N\<close>, \<open>\,\<close> and \<open>\;\<close>;
  the claim adds that a backslash before any other character is dropped and the
  character kept. The pattern of the source only matches the five listed characters
  (the last \<open>return c\<close> of its callback is never reached), so on the two code units
  backslash, colon the function returns its input unchanged: the backslash stays.
\<close>

theorem unescapeText_keeps_unknown_escape:
  "unescapeText [backslash, c16 CHR '':''] = [backslash, c16 CHR '':'']"
  by simp

section \<open>Parameter quoting\<close>

lemma replacePair_skip:
  "s = [] \<or> x \<noteq> a \<or> hd s \<noteq> b \<Longrightarrow> replacePair a b r (x # s) = x # replacePair a b r s"
  by (cases s) auto

lemma replaceUnit_hd:
  "replaceUnit c [e, c] t = y # rest \<Longrightarrow> e \<noteq> c \<Longrightarrow> y \<noteq> c"
  by (cases t) (auto simp: replaceUnit_Cons replaceUnit_Nil split: if_splits)

lemma unescape_quotes:
  "replacePair backslash dquote [dquote] (replaceUnit dquote [backslash, dquote] s) = s"
proof (induction s)
  case Nil
  show ?case by (simp add: replaceUnit_Nil)
next
  case (Cons c s)
  show ?case
  proof (cases "c = dquote")
    case True
    then show ?thesis using Cons.IH by (simp add: replaceUnit_Cons)
  next
    case False
    have "replaceUnit dquote [backslash, dquote] s = [] \<or>
          hd (replaceUnit dquote [backslash, dquote] s) \<noteq> dquote"
    proof (cases "replaceUnit dquote [backslash, dquote] s")
      case Nil
      then show ?thesis by simp
    next
      case (Cons y rest)
      then have "y \<noteq> dquote" by (rule replaceUnit_hd) simp
      with Cons show ?thesis by simp
    qed
    then have "replacePair backslash dquote [dquote] (c # replaceUnit dquote [backslash, dquote] s)
               = c # replacePair backslash dquote [dquote] (replaceUnit dquote [backslash, dquote] s)"
      by (intro replacePair_skip) auto
    with False show ?thesis using Cons.IH by (simp add: replaceUnit_Cons)
  qed
qed

lemma unescape_backslashes:
  "replacePair backslash backslash [backslash] (replaceUnit backslash [backslash, backslash] s) = s"
proof (induction s)
  case Nil
  show ?case by (simp add: replaceUnit_Nil)
next
  case (Cons c s)
  show ?case
  proof (cases "c = backslash")
    case True
    then show ?thesis using Cons.IH by (simp add: replaceUnit_Cons)
  next
    case False
    then show ?thesis using Cons.IH by (simp add: replaceUnit_Cons replacePair_skip)
  qed
qed

lemma slice_quoted: "slice (q # e @ [q']) 1 (length (q # e @ [q']) - 1) = e"
  by (simp add: slice_def)

lemma unquote_plain: "\<not> needsParamQuoting v \<Longrightarrow> unquoteParamValue v = v"
  by (cases v) (auto simp: unquoteParamValue_def needsParamQuoting_def startsWith_def)

text \<open>
  C10. For every string \<open>v\<close>, \<open>unquoteParamValue(quoteParamValue(v)) == v\<close>: a value
  holding one of \<open>; : , "\<close> is wrapped in double quotes with its backslashes and quotes
  escaped, any other value is left alone, and unquoting inverts both cases.
\<close>

theorem unquoteParamValue_quoteParamValue: "unquoteParamValue (quoteParamValue v) = v"
proof (cases "needsParamQuoting v")
  case False
  then show ?thesis by (simp add: quoteParamValue_def unquote_plain)
next
  case True
  define e where "e = replaceUnit dquote [backslash, dquote]
                        (replaceUnit backslash [backslash, backslash] v)"
  have q: "quoteParamValue v = dquote # e @ [dquote]"
    using True by (simp add: quoteParamValue_def e_def)
  have "unquoteParamValue (dquote # e @ [dquote]) =
        replacePair backslash backslash [backslash] (replacePair backslash dquote [dquote] e)"
    unfolding unquoteParamValue_def slice_quoted
    by (simp add: startsWith_def endsWith_def)
  also have "\<dots> = v"
    by (simp add: e_def unescape_quotes unescape_backslashes)
  finally show ?thesis by (simp add: q)
qed

section \<open>Folding and unfolding\<close>

lemma slice_append_drop: "b \<le> e \<Longrightarrow> slice s b e @ drop e s = drop b s"
proof -
  assume "b \<le> e"
  then have "slice s b e @ drop e s = take (e - b) (drop b s) @ drop (e - b) (drop b s)"
    by (simp add: slice_def)
  also have "\<dots> = drop b s"
    by (rule append_take_drop_id)
  finally show ?thesis .
qed

lemma concat_foldSegments:
  "concat (foldSegments line start maxBytes) = drop start line"
proof (induction line start maxBytes rule: foldSegments.induct)
  case (1 line start maxBytes)
  show ?case
  proof (cases "start < length line")
    case False
    then show ?thesis by (subst foldSegments.simps) simp
  next
    case True
    define e0 where "e0 = scanSegment line maxBytes start 0"
    define e where "e = (if e0 = start then start + 1 else e0)"
    have "start \<le> e0"
      unfolding e0_def by (rule scanSegment_ge)
    then have le: "start \<le> e"
      by (simp add: e_def)
    have IH: "concat (foldSegments line e (MAX_LINE_OCTETS - 1)) = drop e line"
      using "1.IH" [OF True e0_def e_def] .
    have "foldSegments line start maxBytes =
          slice line start e # foldSegments line e (MAX_LINE_OCTETS - 1)"
      using True by (subst foldSegments.simps) (simp add: Let_def e_def e0_def)
    then show ?thesis
      using IH slice_append_drop [OF le] by simp
  qed
qed

lemma foldSegments_nonempty:
  "[] \<notin> set (foldSegments line start maxBytes)"
proof (induction line start maxBytes rule: foldSegments.induct)
  case (1 line start maxBytes)
  show ?case
  proof (cases "start < length line")
    case False
    then show ?thesis by (subst foldSegments.simps) simp
  next
    case True
    define e0 where "e0 = scanSegment line maxBytes start 0"
    define e where "e = (if e0 = start then start + 1 else e0)"
    have "start \<le> e0"
      unfolding e0_def by (rule scanSegment_ge)
    then have lt: "start < e"
      by (simp add: e_def)
    have IH: "[] \<notin> set (foldSegments line e (MAX_LINE_OCTETS - 1))"
      using "1.IH" [OF True e0_def e_def] .
    have "slice line start e \<noteq> []"
      using lt True by (simp add: slice_def)
    moreover have "foldSegments line start maxBytes =
          slice line start e # foldSegments line e (MAX_LINE_OCTETS - 1)"
      using True by (subst foldSegments.simps) (simp add: Let_def e_def e0_def)
    ultimately show ?thesis
      using IH by auto
  qed
qed

lemma replacePair_prefix:
  "a \<notin> set p \<Longrightarrow> replacePair a b r (p @ a # b # rest) = p @ r @ replacePair a b r rest"
proof (induction p)
  case Nil
  show ?case by simp
next
  case (Cons x p)
  then have "replacePair a b r (x # (p @ a # b # rest)) = x # replacePair a b r (p @ a # b # rest)"
    by (intro replacePair_skip) auto
  with Cons show ?case by simp
qed

lemma replacePair_absent: "a \<notin> set s \<Longrightarrow> replacePair a b r s = s"
proof (induction s)
  case Nil
  show ?case by simp
next
  case (Cons x s)
  then have "replacePair a b r (x # s) = x # replacePair a b r s"
    by (intro replacePair_skip) auto
  with Cons show ?case by simp
qed

lemma replaceUnit_absent: "c \<notin> set s \<Longrightarrow> replaceUnit c r s = s"
  by (induction s) (auto simp: replaceUnit_Nil replaceUnit_Cons)

lemma removeFolds_skip:
  "x \<noteq> LF \<Longrightarrow> removeFolds (x # s) = x # removeFolds s"
  by (cases s) simp_all

lemma removeFolds_prefix:
  "LF \<notin> set p \<Longrightarrow> removeFolds (p @ LF # SP # rest) = p @ removeFolds rest"
  by (induction p) (simp_all add: removeFolds_skip)

lemma removeFolds_last:
  "LF \<notin> set p \<Longrightarrow> removeFolds (p @ [LF]) = p @ [LF]"
  by (induction p) (simp_all add: removeFolds_skip)

lemma splitAcc_prefix:
  "sep \<notin> set p \<Longrightarrow> splitAcc sep cur (p @ sep # rest) = (cur @ p) # splitAcc sep [] rest"
  by (induction p arbitrary: cur) auto

text \<open>The three replacements of \<open>unfoldLines\<close> on the joined segments.\<close>

lemma normalise_join:
  assumes "\<And>p. p \<in> set parts \<Longrightarrow> CR \<notin> set p"
  shows "replacePair CR LF [LF] (join [CR, LF, SP] parts @ [CR, LF]) = join [LF, SP] parts @ [LF]"
  using assms
proof (induction parts rule: induct_list012)
  case 1
  show ?case by simp
next
  case (2 p)
  then have "CR \<notin> set p" by simp
  then show ?case
    using replacePair_prefix [of CR p LF "[LF]" "[]"] by simp
next
  case (3 p q ps)
  then have p: "CR \<notin> set p" and rest: "\<And>p. p \<in> set (q # ps) \<Longrightarrow> CR \<notin> set p"
    by simp_all
  have "replacePair CR LF [LF] (SP # (join [CR, LF, SP] (q # ps) @ [CR, LF]))
        = SP # replacePair CR LF [LF] (join [CR, LF, SP] (q # ps) @ [CR, LF])"
    by (intro replacePair_skip) simp
  then show ?case
    using replacePair_prefix [OF p, of LF "[LF]" "SP # (join [CR, LF, SP] (q # ps) @ [CR, LF])"]
      "3.IH"(2) [OF rest] by simp
qed

lemma set_join: "set (join sep parts) \<subseteq> set sep \<union> \<Union> (set ` set parts)"
  by (induction sep parts rule: join.induct) auto

lemma removeFolds_join:
  assumes "\<And>p. p \<in> set parts \<Longrightarrow> LF \<notin> set p"
  shows "removeFolds (join [LF, SP] parts @ [LF]) = concat parts @ [LF]"
  using assms
proof (induction parts rule: induct_list012)
  case 1
  show ?case by simp
next
  case (2 p)
  then show ?case by (simp add: removeFolds_last)
next
  case (3 p q ps)
  then have p: "LF \<notin> set p" and rest: "\<And>p. p \<in> set (q # ps) \<Longrightarrow> LF \<notin> set p"
    by simp_all
  show ?case
    using removeFolds_prefix [OF p, of "join [LF, SP] (q # ps) @ [LF]"] "3.IH"(2) [OF rest]
    by simp
qed

lemma unfoldLines_join:
  assumes cr: "\<And>p. p \<in> set parts \<Longrightarrow> CR \<notin> set p"
    and lf: "\<And>p. p \<in> set parts \<Longrightarrow> LF \<notin> set p"
    and ne: "concat parts \<noteq> []"
  shows "unfoldLines (join [CR, LF, SP] parts @ [CR, LF]) = [concat parts]"
proof -
  have "CR \<notin> set (join [LF, SP] parts)"
    using set_join [of "[LF, SP]" parts] cr by auto
  then have "replaceUnit CR [LF] (join [LF, SP] parts @ [LF]) = join [LF, SP] parts @ [LF]"
    by (intro replaceUnit_absent) simp
  moreover have "LF \<notin> set (concat parts)"
    using lf by auto
  then have "splitAcc LF [] (concat parts @ [LF]) = [concat parts, []]"
    using splitAcc_prefix [of LF "concat parts" "[]" "[]"] by simp
  ultimately show ?thesis
    using ne by (simp add: unfoldLines_def split_def normalise_join [OF cr] removeFolds_join [OF lf])
qed

text \<open>
  C1, the claim as stated: for every single-line text \<open>L\<close>, \<open>unfoldLines(foldLine(L))\<close>
  is the one line \<open>L\<close>. The empty text is a single-line text; it folds to a bare line
  terminator, and \<open>unfoldLines\<close> drops empty lines, so no line comes back.
\<close>

theorem unfold_fold_empty_counterexample: "unfoldLines (foldLine []) \<noteq> [[]]"
  by (simp add: foldLine_def unfoldLines_def split_def replaceUnit_def)

text \<open>
  C1, amended: for every non-empty text \<open>L\<close> without a carriage return or a line feed,
  \<open>unfoldLines(foldLine(L))\<close> is exactly the one line \<open>L\<close>, whatever the UTF-8 length of
  \<open>L\<close> is (74, 75, 76 and 150 octets included); and no segment that \<open>foldLine\<close> cuts is
  empty, so no empty trailing fold is emitted.
\<close>

theorem unfoldLines_foldLine:
  assumes "L \<noteq> []" and "CR \<notin> set L" and "LF \<notin> set L"
  shows "unfoldLines (foldLine L) = [L] \<and> [] \<notin> set (foldSegments L 0 MAX_LINE_OCTETS)"
proof (cases "byteLength L \<le> MAX_LINE_OCTETS")
  case True
  have "unfoldLines (join [CR, LF, SP] [L] @ [CR, LF]) = [concat [L]]"
    using assms by (intro unfoldLines_join) simp_all
  then show ?thesis
    using True by (simp add: foldLine_def foldSegments_nonempty)
next
  case False
  define parts where "parts = foldSegments L 0 MAX_LINE_OCTETS"
  have c: "concat parts = L"
    by (simp add: parts_def concat_foldSegments)
  then have sub: "\<And>p. p \<in> set parts \<Longrightarrow> set p \<subseteq> set L"
    by (metis Sup_upper image_eqI set_concat)
  have "unfoldLines (join [CR, LF, SP] parts @ [CR, LF]) = [concat parts]"
    using assms sub c by (intro unfoldLines_join) auto
  then show ?thesis
    using False c by (simp add: foldLine_def parts_def foldSegments_nonempty)
qed

theorem unfoldLines_foldLine_witness:
  "replicate 150 (c16 CHR ''a'') \<noteq> [] \<and>
   CR \<notin> set (replicate 150 (c16 CHR ''a'')) \<and>
   LF \<notin> set (replicate 150 (c16 CHR ''a'')) \<and>
   unfoldLines (foldLine (replicate 150 (c16 CHR ''a''))) = [replicate 150 (c16 CHR ''a'')]"
  using unfoldLines_foldLine [of "replicate 150 (c16 CHR ''a'')"] by simp

section \<open>Date and time values\<close>

lemmas date_eval =
  parseDateAndOrTime_def formatDateAndOrTime_def js_def basicLatin_def Let_def isWhiteSpace_def
  startsWith_def slice_def replaceUnit_def parseInt_def isDigit_def digitsValue_def pad_def
  padStart_def decimal.simps defined_def offsetMatch_def

text \<open>
  C4. Formatting the parsed value gives the input back for each of the canonical
  inputs \<open>19901231\<close>, \<open>--0315\<close>, \<open>1990\<close>, \<open>20240101T120000Z\<close> and
  \<open>20240601T083000+0500\<close>.
\<close>

theorem format_parse_canonical:
  "map_option formatDateAndOrTime (parseDateAndOrTime basicLatin (js ''19901231''))
     = Some (js ''19901231'') \<and>
   map_option formatDateAndOrTime (parseDateAndOrTime basicLatin (js ''--0315''))
     = Some (js ''--0315'') \<and>
   map_option formatDateAndOrTime (parseDateAndOrTime basicLatin (js ''1990''))
     = Some (js ''1990'') \<and>
   map_option formatDateAndOrTime (parseDateAndOrTime basicLatin (js ''20240101T120000Z''))
     = Some (js ''20240101T120000Z'') \<and>
   map_option formatDateAndOrTime (parseDateAndOrTime basicLatin (js ''20240601T083000+0500''))
     = Some (js ''20240601T083000+0500'')"
  by (simp add: date_eval)

lemma digit_plain:
  assumes "isDigit c"
  shows "\<not> isWhiteSpace c" and "c \<noteq> c16 CHR ''-''" and "c \<noteq> c16 CHR ''T''"
    and "\<not> (0x61 \<le> c \<and> c \<le> 0x7A)"
  using assms
  by (auto simp: isDigit_def isWhiteSpace_def word_le_nat_alt word_unat_eq_iff)

lemma not_digit: "\<not> isDigit 0x54" "\<not> isDigit 0x2D"
  by (simp_all add: isDigit_def)

lemma digits_plain:
  assumes "list_all isDigit ds"
  shows "filter (\<lambda>c. \<not> isWhiteSpace c) ds = ds"
    and "toUpperCase basicLatin ds = ds"
    and "indexOf ds (c16 CHR ''T'') = None"
    and "replaceUnit (c16 CHR ''-'') [] ds = ds"
  using assms
  by (induction ds) (auto simp: digit_plain not_digit basicLatin_def replaceUnit_def)

text \<open>
  A date part of two or of three dashes followed by digits gives the same fields: no
  year, the month from the first two digits, the day from the next two.
\<close>

lemma parse_dashes_digits:
  assumes "list_all isDigit ds" and "p = js ''--'' \<or> p = js ''---''"
  shows "parseDateAndOrTime basicLatin (p @ ds) =
     Some \<lparr>year = None,
           month = (if 2 \<le> length ds then Some (parseInt (slice ds 0 2)) else None),
           day = (if 4 \<le> length ds then Some (parseInt (slice ds 2 4)) else None),
           hour = None, minute = None, second = None, utcOffset = None, hasTime = False\<rparr>"
proof -
  note d = digits_plain [OF assms(1)]
  have p: "filter (\<lambda>c. \<not> isWhiteSpace c) p = p" "toUpperCase basicLatin p = p"
    "indexOf p (c16 CHR ''T'') = None" "replaceUnit (c16 CHR ''-'') [] (drop 2 p) = []"
    "startsWith (p @ ds) (js ''--'')" "drop 2 (p @ ds) = drop 2 p @ ds" "p @ ds \<noteq> []"
    using assms(2) by (auto simp: js_def isWhiteSpace_def basicLatin_def replaceUnit_def startsWith_def)
  have v: "filter (\<lambda>c. \<not> isWhiteSpace c) (p @ ds) = p @ ds"
    by (simp add: p d)
  have "toUpperCase basicLatin (p @ ds) = p @ ds"
    using p(2) d(2) by (simp add: basicLatin_def)
  moreover have "indexOf (p @ ds) (c16 CHR ''T'') = None"
    using p(3) d(3) assms(2) by (auto simp: js_def)
  ultimately have idx: "indexOf (toUpperCase basicLatin (p @ ds)) (c16 CHR ''T'') = None"
    by simp
  have dashes: "replaceUnit (c16 CHR ''-'') [] (drop 2 (p @ ds)) = ds"
    unfolding p(6) replaceUnit_append p(4) d(4) by simp
  show ?thesis
    unfolding parseDateAndOrTime_def Let_def v idx
    using p(5,7) dashes by (simp del: drop_append)
qed

text \<open>
  C5. The claim: a date part \<open>---DD\<close> populates only the day. The source tests the
  prefix \<open>--\<close> before the prefix \<open>---\<close>, so its \<open>---DD\<close> branch is never reached: on
  \<open>---15\<close> the two digits become the month and the day stays unset (and so for every
  run of digits after three dashes: lemma \<open>parse_dashes_digits\<close>, which also gives the
  part of the claim about the prefix \<open>--\<close>).
\<close>

theorem parse_three_dashes_sets_month:
  "parseDateAndOrTime basicLatin (js ''---15'') =
     Some \<lparr>year = None, month = Some (Num 15), day = None, hour = None, minute = None,
           second = None, utcOffset = None, hasTime = False\<rparr>"
  by (simp add: date_eval)

section \<open>Parameters\<close>








section \<open>Block assembly\<close>

lemma blocksLoop_append:
  "blocksLoop inst u i (xs @ ys) st =
     blocksLoop inst u (i + length xs) ys (blocksLoop inst u i xs st)"
proof (induction xs arbitrary: i st)
  case Nil
  show ?case by simp
next
  case (Cons x xs)
  obtain inV cur cards ws where st: "st = (inV, cur, cards, ws)"
    by (cases st)
  show ?case
    unfolding st by (simp add: Cons.IH Let_def)
qed

lemma blocksLoop_body:
  "list_all (\<lambda>l. \<not> isBegin u l \<and> \<not> isEnd u l) body \<Longrightarrow>
   blocksLoop inst u i body (True, cur, cards, ws) = (True, cur @ body, cards, ws)"
  by (induction body arbitrary: i cur) simp_all

lemma isEnd_not_isBegin: "isEnd u e \<Longrightarrow> \<not> isBegin u e"
  by (simp add: isEnd_def isBegin_def js_def)

lemma parseParameter_warnings:
  "\<exists>extra. snd (parseParameter u (m, ws) part) = ws @ extra"
  by (simp add: parseParameter_def Let_def split: option.splits)

lemma foldl_parseParameter_warnings:
  "\<exists>extra. snd (foldl (parseParameter u) (m, ws) parts) = ws @ extra"
proof (induction parts arbitrary: m ws)
  case Nil
  show ?case by simp
next
  case (Cons p parts)
  obtain m' e1 where step: "parseParameter u (m, ws) p = (m', ws @ e1)"
    using parseParameter_warnings [of u m ws p] by (metis prod.collapse)
  obtain e2 where "snd (foldl (parseParameter u) (m', ws @ e1) parts) = (ws @ e1) @ e2"
    using Cons.IH by blast
  then show ?case
    by (simp add: step)
qed

lemma parseParameters_warnings:
  "\<exists>extra. snd (parseParameters u s ws) = ws @ extra"
  using foldl_parseParameter_warnings [of u "[]" ws]
  by (simp add: parseParameters_def)

lemma parseParameters_warningsD:
  "parseParameters u s ws = (m, ws') \<Longrightarrow> \<exists>extra. ws' = ws @ extra"
  using parseParameters_warnings [of u s ws] by simp

lemma parseContentLine_warnings:
  "\<exists>extra. snd (parseContentLine u ln ws) = ws @ extra"
  by (auto simp: parseContentLine_def Let_def split: option.splits prod.splits
      dest: parseParameters_warningsD)

lemma parseContentLine_warningsD:
  "parseContentLine u ln ws = (r, ws') \<Longrightarrow> \<exists>extra. ws' = ws @ extra"
  using parseContentLine_warnings [of u ln ws] by simp

lemma parseBlockLine_warnings:
  "\<exists>extra. warnings (parseBlockLine inst u vc ln) = warnings vc @ extra"
  by (auto simp: parseBlockLine_def Let_def split: option.splits prod.splits
      dest: parseContentLine_warningsD)

lemma foldl_parseBlockLine_warnings:
  "\<exists>extra. warnings (foldl (parseBlockLine inst u) vc lns) = warnings vc @ extra"
proof (induction lns arbitrary: vc)
  case Nil
  show ?case by simp
next
  case (Cons ln lns)
  obtain e1 where "warnings (parseBlockLine inst u vc ln) = warnings vc @ e1"
    using parseBlockLine_warnings by blast
  moreover obtain e2 where
    "warnings (foldl (parseBlockLine inst u) (parseBlockLine inst u vc ln) lns)
       = warnings (parseBlockLine inst u vc ln) @ e2"
    using Cons.IH by blast
  ultimately show ?case
    by simp
qed

lemma parseVCardBlock_warnings:
  "\<exists>extra. warnings (parseVCardBlock inst u lns ws) = ws @ extra"
  using foldl_parseBlockLine_warnings [of inst u "\<lparr>version = js ''4.0'', properties = [], warnings = ws\<rparr>" lns]
  by (simp add: parseVCardBlock_def)

lemma stray_end:
  assumes "isEnd u e"
    and "blocksLoop inst u 0 pre (False, [], [], []) = (False, cur, cards, ws)"
  shows "blocksLoop inst u 0 (pre @ e # rest) (False, [], [], []) =
           blocksLoop inst u (length pre + 1) rest
             (False, cur, cards,
              ws @ [Warning (Some (length pre + 1)) (js ''Unexpected END:VCARD without BEGIN:VCARD'')])"
  using assms isEnd_not_isBegin [OF assms(1)]
  by (simp add: blocksLoop_append)

lemma unclosed_block:
  assumes "isBegin u b"
    and "list_all (\<lambda>l. \<not> isBegin u l \<and> \<not> isEnd u l) body"
    and "blocksLoop inst u 0 pre (False, [], [], []) = (inV, cur, cards, ws)"
  shows "blocksLoop inst u 0 (pre @ b # body) (False, [], [], []) = (True, body, cards, ws)"
  using assms by (simp add: blocksLoop_append blocksLoop_body)

lemma blocksLoop_shape:
  "\<exists>a b more extra extra'.
     blocksLoop inst u i ls (inV, cur, cards, ws) = (a, b, cards @ more, ws @ extra) \<and>
     blocksLoop inst u j ls (inV, cur, cards', ws') = (a, b, cards' @ more, ws' @ extra')"
proof (induction ls arbitrary: i j inV cur cards ws cards' ws')
  case Nil
  show ?case by simp
next
  case (Cons ln ls)
  let ?w = "\<lambda>k. Warning (Some (k + 1)) (js ''Unexpected END:VCARD without BEGIN:VCARD'')"
  let ?vc = "parseVCardBlock inst u cur []"
  consider (opens) "isBegin u ln"
    | (stray) "\<not> isBegin u ln" "isEnd u ln" "\<not> inV"
    | (closes) "\<not> isBegin u ln" "isEnd u ln" "inV"
    | (other) "\<not> isBegin u ln" "\<not> isEnd u ln"
    by blast
  then show ?case
  proof cases
    case opens
    then show ?thesis
      using Cons.IH [of "i + 1" True "[]" cards ws "j + 1" cards' ws'] by simp
  next
    case stray
    obtain a b more extra extra' where
      "blocksLoop inst u (i + 1) ls (inV, cur, cards, ws @ [?w i]) = (a, b, cards @ more, (ws @ [?w i]) @ extra)"
      "blocksLoop inst u (j + 1) ls (inV, cur, cards', ws' @ [?w j]) = (a, b, cards' @ more, (ws' @ [?w j]) @ extra')"
      using Cons.IH [of "i + 1" inV cur cards "ws @ [?w i]" "j + 1" cards' "ws' @ [?w j]"] by blast
    then have
      "blocksLoop inst u i (ln # ls) (inV, cur, cards, ws) = (a, b, cards @ more, ws @ (?w i # extra))"
      "blocksLoop inst u j (ln # ls) (inV, cur, cards', ws') = (a, b, cards' @ more, ws' @ (?w j # extra'))"
      using stray by simp_all
    then show ?thesis by blast
  next
    case closes
    obtain a b more extra extra' where
      "blocksLoop inst u (i + 1) ls (False, [], cards @ [?vc], ws @ warnings ?vc)
         = (a, b, (cards @ [?vc]) @ more, (ws @ warnings ?vc) @ extra)"
      "blocksLoop inst u (j + 1) ls (False, [], cards' @ [?vc], ws' @ warnings ?vc)
         = (a, b, (cards' @ [?vc]) @ more, (ws' @ warnings ?vc) @ extra')"
      using Cons.IH [of "i + 1" False "[]" "cards @ [?vc]" "ws @ warnings ?vc" "j + 1"
          "cards' @ [?vc]" "ws' @ warnings ?vc"] by blast
    then have
      "blocksLoop inst u i (ln # ls) (inV, cur, cards, ws)
         = (a, b, cards @ (?vc # more), ws @ (warnings ?vc @ extra))"
      "blocksLoop inst u j (ln # ls) (inV, cur, cards', ws')
         = (a, b, cards' @ (?vc # more), ws' @ (warnings ?vc @ extra'))"
      using closes by (simp_all add: Let_def)
    then show ?thesis by blast
  next
    case other
    then show ?thesis
      using Cons.IH [of "i + 1" inV "cur @ [ln]" cards ws "j + 1" cards' ws']
        Cons.IH [of "i + 1" inV cur cards ws "j + 1" cards' ws']
      by (cases inV) simp_all
  qed
qed

lemma blocksLoop_outside:
  "blocksLoop inst u i ls (inV, cur, cards, ws) = (False, cur', cards', ws') \<Longrightarrow>
   inV \<or> cur = [] \<Longrightarrow> cur' = []"
proof (induction ls arbitrary: i inV cur cards ws)
  case Nil
  then show ?case by simp
next
  case (Cons ln ls)
  then show ?case
    by (auto simp: Let_def split: if_splits)
qed

lemma parseParameter_map:
  "fst (parseParameter u (m, ws) part) = fst (parseParameter u (m, ws') part)"
  by (simp add: parseParameter_def Let_def split: option.splits)

lemma foldl_parseParameter_map:
  "fst (foldl (parseParameter u) (m, ws) parts) = fst (foldl (parseParameter u) (m, ws') parts)"
proof (induction parts arbitrary: m ws ws')
  case Nil
  show ?case by simp
next
  case (Cons p parts)
  obtain m1 w1 where s1: "parseParameter u (m, ws) p = (m1, w1)"
    by (cases "parseParameter u (m, ws) p")
  obtain m2 w2 where s2: "parseParameter u (m, ws') p = (m2, w2)"
    by (cases "parseParameter u (m, ws') p")
  have "m1 = m2"
    using parseParameter_map [of u m ws p ws'] by (simp add: s1 s2)
  then show ?case
    using Cons.IH [of m1 w1 w2] by (simp add: s1 s2)
qed

lemma parseParameters_map:
  "fst (parseParameters u s ws) = fst (parseParameters u s ws')"
  using foldl_parseParameter_map [of u "[]" ws _ ws']
  by (simp add: parseParameters_def)

lemma parseParameters_mapD:
  "parseParameters u s ws = (m, w) \<Longrightarrow> parseParameters u s ws' = (m', w') \<Longrightarrow> m = m'"
  using parseParameters_map [of u s ws ws'] by simp

lemma parseContentLine_raw:
  "fst (parseContentLine u ln ws) = fst (parseContentLine u ln ws')"
  by (auto simp: parseContentLine_def Let_def split: option.splits prod.splits
      dest: parseParameters_mapD)

lemma parseContentLine_rawD:
  "parseContentLine u ln ws = (r, w) \<Longrightarrow> parseContentLine u ln ws' = (r', w') \<Longrightarrow> r = r'"
  using parseContentLine_raw [of u ln ws ws'] by simp

lemma parseBlockLine_properties:
  "properties (parseBlockLine inst u vc ln) =
     properties vc @
     (if startsWith (toUpperCase u ln) (js ''VERSION:'') then []
      else case fst (parseContentLine u ln []) of
        None \<Rightarrow> []
      | Some raw \<Rightarrow> if name raw = js ''VERSION'' then [] else [fst (inst raw)])"
  by (cases "parseContentLine u ln []")
    (auto simp: parseBlockLine_def Let_def split: option.splits prod.splits
      dest: parseContentLine_rawD)

lemma foldl_parseBlockLine_properties:
  "properties (foldl (parseBlockLine inst u) vc lns) =
     properties vc @
     concat (map (\<lambda>ln.
       if startsWith (toUpperCase u ln) (js ''VERSION:'') then []
       else case fst (parseContentLine u ln []) of
         None \<Rightarrow> []
       | Some raw \<Rightarrow> if name raw = js ''VERSION'' then [] else [fst (inst raw)]) lns)"
  by (induction lns arbitrary: vc) (simp_all add: parseBlockLine_properties)

lemma parseVCardBlock_properties:
  "properties (parseVCardBlock inst u lns ws) =
     concat (map (\<lambda>ln.
       if startsWith (toUpperCase u ln) (js ''VERSION:'') then []
       else case fst (parseContentLine u ln []) of
         None \<Rightarrow> []
       | Some raw \<Rightarrow> if name raw = js ''VERSION'' then [] else [fst (inst raw)]) lns)"
  by (simp add: parseVCardBlock_def foldl_parseBlockLine_properties)

text \<open>
  C7. For every input text: (1) when a line of the unfolded input is an end marker
  and the assembler is outside a block after the lines before it, that line records
  the warning \<open>Unexpected END:VCARD without BEGIN:VCARD\<close> with its 1-based position,
  emits no block and leaves the assembler outside a block: the rest of the input is
  read from the same state with only the warning added; the warnings of the result
  hold the warnings recorded before, then this warning; and the blocks of the result
  are the blocks closed before the marker followed by the blocks that the lines after
  the marker give on their own, so the marker contributes none. (2) When the input
  ends inside a block (a begin marker with no further marker after it), the result
  has exactly one block more than the blocks closed before: the block parsed from the
  accumulated lines, whose warnings start with the unclosed-block warning, and these
  warnings are appended to the warnings of the result. The properties of that block
  are, in order, the instantiated properties of the accumulated lines: every line
  that is not a version line and that tokenizes to a content line gives one.
\<close>

theorem parseVCardText_tolerance:
  "(unfoldLines input = pre @ e # rest \<and> isEnd u e \<and>
    blocksLoop inst u 0 pre (False, [], [], []) = (False, cur, cards, ws)
    \<longrightarrow>
    blocksLoop inst u 0 (pre @ [e]) (False, [], [], []) =
      (False, cur, cards,
       ws @ [Warning (Some (length pre + 1)) (js ''Unexpected END:VCARD without BEGIN:VCARD'')]) \<and>
    parseVCardText inst u input =
      finishBlocks inst u
        (blocksLoop inst u (length pre + 1) rest
          (False, cur, cards,
           ws @ [Warning (Some (length pre + 1)) (js ''Unexpected END:VCARD without BEGIN:VCARD'')])) \<and>
    (\<exists>extra. allWarnings (parseVCardText inst u input) =
       ws @ Warning (Some (length pre + 1)) (js ''Unexpected END:VCARD without BEGIN:VCARD'') # extra) \<and>
    rawVCards (parseVCardText inst u input) =
      cards @ rawVCards (finishBlocks inst u (blocksLoop inst u 0 rest (False, [], [], []))))
   \<and>
   (unfoldLines input' = pre' @ b # body \<and> isBegin u b \<and>
    list_all (\<lambda>l. \<not> isBegin u l \<and> \<not> isEnd u l) body \<and>
    blocksLoop inst u 0 pre' (False, [], [], []) = (inV, cur', cards', ws')
    \<longrightarrow>
    rawVCards (parseVCardText inst u input') =
      cards' @ [parseVCardBlock inst u body [unclosedWarning]] \<and>
    (\<exists>extra. warnings (parseVCardBlock inst u body [unclosedWarning]) = unclosedWarning # extra \<and>
       allWarnings (parseVCardText inst u input') = ws' @ unclosedWarning # extra) \<and>
    properties (parseVCardBlock inst u body [unclosedWarning]) =
      concat (map (\<lambda>ln.
        if startsWith (toUpperCase u ln) (js ''VERSION:'') then []
        else case fst (parseContentLine u ln []) of
          None \<Rightarrow> []
        | Some raw \<Rightarrow> if name raw = js ''VERSION'' then [] else [fst (inst raw)]) body))"
proof (intro conjI impI)
  let ?w = "Warning (Some (length pre + 1)) (js ''Unexpected END:VCARD without BEGIN:VCARD'')"
  assume a: "unfoldLines input = pre @ e # rest \<and> isEnd u e \<and>
    blocksLoop inst u 0 pre (False, [], [], []) = (False, cur, cards, ws)"
  then have e: "isEnd u e"
    and pre: "blocksLoop inst u 0 pre (False, [], [], []) = (False, cur, cards, ws)"
    by simp_all
  show "blocksLoop inst u 0 (pre @ [e]) (False, [], [], []) = (False, cur, cards, ws @ [?w])"
    using stray_end [OF e pre, of "[]"] by simp
  show res: "parseVCardText inst u input =
      finishBlocks inst u (blocksLoop inst u (length pre + 1) rest (False, cur, cards, ws @ [?w]))"
    using a stray_end [OF e pre, of rest] by (simp add: parseVCardText_def)
  have cur: "cur = []"
    using blocksLoop_outside [OF pre] by simp
  obtain x y more extra extra' where
    l: "blocksLoop inst u (length pre + 1) rest (False, cur, cards, ws @ [?w])
          = (x, y, cards @ more, (ws @ [?w]) @ extra)"
    and r: "blocksLoop inst u 0 rest (False, cur, [], []) = (x, y, [] @ more, [] @ extra')"
    using blocksLoop_shape [of inst u "length pre + 1" rest False cur cards "ws @ [?w]" 0 "[]" "[]"]
    by blast
  have lres: "parseVCardText inst u input =
      finishBlocks inst u (x, y, cards @ more, (ws @ [?w]) @ extra)"
    using res l by simp
  have rres: "blocksLoop inst u 0 rest (False, [], [], []) = (x, y, more, extra')"
    using r cur by simp
  show "\<exists>extra. allWarnings (parseVCardText inst u input) = ws @ ?w # extra"
    unfolding lres by (simp add: finishBlocks_def Let_def)
  show "rawVCards (parseVCardText inst u input) =
      cards @ rawVCards (finishBlocks inst u (blocksLoop inst u 0 rest (False, [], [], [])))"
    unfolding lres rres by (simp add: finishBlocks_def Let_def)
next
  assume a: "unfoldLines input' = pre' @ b # body \<and> isBegin u b \<and>
    list_all (\<lambda>l. \<not> isBegin u l \<and> \<not> isEnd u l) body \<and>
    blocksLoop inst u 0 pre' (False, [], [], []) = (inV, cur', cards', ws')"
  then have "blocksLoop inst u 0 (unfoldLines input') (False, [], [], []) = (True, body, cards', ws')"
    using unclosed_block [of u b body inst pre' inV cur' cards' ws'] by simp
  then have res: "parseVCardText inst u input' =
      \<lparr>rawVCards = cards' @ [parseVCardBlock inst u body [unclosedWarning]],
       allWarnings = ws' @ warnings (parseVCardBlock inst u body [unclosedWarning])\<rparr>"
    by (simp add: parseVCardText_def finishBlocks_def Let_def)
  then show "rawVCards (parseVCardText inst u input') =
      cards' @ [parseVCardBlock inst u body [unclosedWarning]]"
    by simp
  obtain extra where "warnings (parseVCardBlock inst u body [unclosedWarning]) = [unclosedWarning] @ extra"
    using parseVCardBlock_warnings by blast
  then show "\<exists>extra. warnings (parseVCardBlock inst u body [unclosedWarning]) = unclosedWarning # extra \<and>
       allWarnings (parseVCardText inst u input') = ws' @ unclosedWarning # extra"
    using res by simp
  show "properties (parseVCardBlock inst u body [unclosedWarning]) =
      concat (map (\<lambda>ln.
        if startsWith (toUpperCase u ln) (js ''VERSION:'') then []
        else case fst (parseContentLine u ln []) of
          None \<Rightarrow> []
        | Some raw \<Rightarrow> if name raw = js ''VERSION'' then [] else [fst (inst raw)]) body)"
    by (rule parseVCardBlock_properties)
qed

lemmas marker_eval =
  isBegin_def isEnd_def trim_def isWhiteSpace_def basicLatin_def js_def

lemma unfold_example:
  "unfoldLines (js ''END:VCARD'' @ [CR, LF] @ js ''BEGIN:VCARD'' @ [CR, LF] @ js ''FN:Test'')
     = [js ''END:VCARD'', js ''BEGIN:VCARD'', js ''FN:Test'']"
  by (simp add: unfoldLines_def split_def replaceUnit_def js_def)

lemma unfold_lone_end: "unfoldLines (js ''END:VCARD'') = [js ''END:VCARD'']"
  by (simp add: unfoldLines_def split_def replaceUnit_def js_def)

lemma block_example:
  "parseVCardBlock (\<lambda>raw. (raw, [])) basicLatin [js ''FN:Test''] [unclosedWarning] =
     \<lparr>version = js ''4.0'',
      properties = [\<lparr>group = None, name = js ''FN'', parameters = [], value = js ''Test''\<rparr>],
      warnings = [unclosedWarning]\<rparr>"
  by (simp add: parseVCardBlock_def parseBlockLine_def parseContentLine_def parseParameters_def
      js_def basicLatin_def startsWith_def slice_def trim_def isWhiteSpace_def Let_def)

theorem parseVCardText_tolerance_witness:
  "unfoldLines (js ''END:VCARD'' @ [CR, LF] @ js ''BEGIN:VCARD'' @ [CR, LF] @ js ''FN:Test'')
     = [js ''END:VCARD'', js ''BEGIN:VCARD'', js ''FN:Test''] \<and>
   isEnd basicLatin (js ''END:VCARD'') \<and>
   isBegin basicLatin (js ''BEGIN:VCARD'') \<and>
   list_all (\<lambda>l. \<not> isBegin basicLatin l \<and> \<not> isEnd basicLatin l) [js ''FN:Test''] \<and>
   blocksLoop (\<lambda>raw. (raw, [])) basicLatin 0 [js ''END:VCARD''] (False, [], [], []) =
     (False, [], [],
      [Warning (Some 1) (js ''Unexpected END:VCARD without BEGIN:VCARD'')]) \<and>
   parseVCardText (\<lambda>raw. (raw, [])) basicLatin
       (js ''END:VCARD'' @ [CR, LF] @ js ''BEGIN:VCARD'' @ [CR, LF] @ js ''FN:Test'')
     = finishBlocks (\<lambda>raw. (raw, [])) basicLatin
         (blocksLoop (\<lambda>raw. (raw, [])) basicLatin 1 [js ''BEGIN:VCARD'', js ''FN:Test'']
           (False, [], [],
            [Warning (Some 1) (js ''Unexpected END:VCARD without BEGIN:VCARD'')])) \<and>
   rawVCards (parseVCardText (\<lambda>raw. (raw, [])) basicLatin
       (js ''END:VCARD'' @ [CR, LF] @ js ''BEGIN:VCARD'' @ [CR, LF] @ js ''FN:Test''))
     = [parseVCardBlock (\<lambda>raw. (raw, [])) basicLatin [js ''FN:Test''] [unclosedWarning]] \<and>
   (\<exists>extra. allWarnings (parseVCardText (\<lambda>raw. (raw, [])) basicLatin
       (js ''END:VCARD'' @ [CR, LF] @ js ''BEGIN:VCARD'' @ [CR, LF] @ js ''FN:Test''))
     = [Warning (Some 1) (js ''Unexpected END:VCARD without BEGIN:VCARD''), unclosedWarning] @ extra) \<and>
   parseVCardText (\<lambda>raw. (raw, [])) basicLatin
       (js ''END:VCARD'' @ [CR, LF] @ js ''BEGIN:VCARD'' @ [CR, LF] @ js ''FN:Test'')
     = \<lparr>rawVCards =
          [\<lparr>version = js ''4.0'',
            properties = [\<lparr>group = None, name = js ''FN'', parameters = [], value = js ''Test''\<rparr>],
            warnings = [unclosedWarning]\<rparr>],
        allWarnings =
          [Warning (Some 1) (js ''Unexpected END:VCARD without BEGIN:VCARD''), unclosedWarning]\<rparr> \<and>
   parseVCardText (\<lambda>raw. (raw, [])) basicLatin (js ''END:VCARD'')
     = \<lparr>rawVCards = [],
        allWarnings = [Warning (Some 1) (js ''Unexpected END:VCARD without BEGIN:VCARD'')]\<rparr>"
proof -
  let ?inst = "(\<lambda>raw. (raw, [])) :: RawProperty \<Rightarrow> RawProperty \<times> ParseWarning list"
  let ?input = "js ''END:VCARD'' @ [CR, LF] @ js ''BEGIN:VCARD'' @ [CR, LF] @ js ''FN:Test''"
  let ?w = "Warning (Some 1) (js ''Unexpected END:VCARD without BEGIN:VCARD'')"
  let ?block = "parseVCardBlock ?inst basicLatin [js ''FN:Test''] [unclosedWarning]"
  have e: "isEnd basicLatin (js ''END:VCARD'')"
    by (simp add: marker_eval)
  have b: "isBegin basicLatin (js ''BEGIN:VCARD'')"
    by (simp add: marker_eval)
  have body: "list_all (\<lambda>l. \<not> isBegin basicLatin l \<and> \<not> isEnd basicLatin l) [js ''FN:Test'']"
    by (simp add: marker_eval)
  note T = parseVCardText_tolerance [where input = ?input and pre = "[]"
      and e = "js ''END:VCARD''" and rest = "[js ''BEGIN:VCARD'', js ''FN:Test'']"
      and u = basicLatin and inst = ?inst and cur = "[]" and cards = "[]" and ws = "[]"
      and input' = ?input and pre' = "[js ''END:VCARD'']"
      and b = "js ''BEGIN:VCARD''" and body = "[js ''FN:Test'']"
      and inV = False and cur' = "[]" and cards' = "[]" and ws' = "[?w]"]
  have h1: "unfoldLines ?input = [] @ js ''END:VCARD'' # [js ''BEGIN:VCARD'', js ''FN:Test''] \<and>
      isEnd basicLatin (js ''END:VCARD'') \<and>
      blocksLoop ?inst basicLatin 0 [] (False, [], [], []) = (False, [], [], [])"
    using unfold_example e by simp
  note t = mp [OF conjunct1 [OF T] h1]
  have pre: "blocksLoop ?inst basicLatin 0 [js ''END:VCARD''] (False, [], [], []) =
      (False, [], [], [?w])"
    using t [THEN conjunct1] by (simp del: blocksLoop.simps)
  have cont: "parseVCardText ?inst basicLatin ?input =
      finishBlocks ?inst basicLatin
        (blocksLoop ?inst basicLatin 1 [js ''BEGIN:VCARD'', js ''FN:Test''] (False, [], [], [?w]))"
    using t [THEN conjunct2, THEN conjunct1] by (simp del: blocksLoop.simps)
  have h2: "unfoldLines ?input = [js ''END:VCARD''] @ js ''BEGIN:VCARD'' # [js ''FN:Test''] \<and>
      isBegin basicLatin (js ''BEGIN:VCARD'') \<and>
      list_all (\<lambda>l. \<not> isBegin basicLatin l \<and> \<not> isEnd basicLatin l) [js ''FN:Test''] \<and>
      blocksLoop ?inst basicLatin 0 [js ''END:VCARD''] (False, [], [], []) = (False, [], [], [?w])"
    using unfold_example b body pre by simp
  note t' = mp [OF conjunct2 [OF T] h2]
  have raw: "rawVCards (parseVCardText ?inst basicLatin ?input) = [?block]"
    using t' [THEN conjunct1] by simp
  have all: "allWarnings (parseVCardText ?inst basicLatin ?input) = [?w, unclosedWarning]"
    using t' [THEN conjunct2, THEN conjunct1] by (auto simp: block_example)
  have whole: "parseVCardText ?inst basicLatin ?input =
      \<lparr>rawVCards = [?block], allWarnings = [?w, unclosedWarning]\<rparr>"
    using all raw by (cases "parseVCardText ?inst basicLatin ?input") simp
  note L = parseVCardText_tolerance [where input = "js ''END:VCARD''" and pre = "[]"
      and e = "js ''END:VCARD''" and rest = "[]"
      and u = basicLatin and inst = ?inst and cur = "[]" and cards = "[]" and ws = "[]"
      and input' = ?input and pre' = "[js ''END:VCARD'']"
      and b = "js ''BEGIN:VCARD''" and body = "[js ''FN:Test'']"
      and inV = False and cur' = "[]" and cards' = "[]" and ws' = "[?w]"]
  have h3: "unfoldLines (js ''END:VCARD'') = [] @ js ''END:VCARD'' # [] \<and>
      isEnd basicLatin (js ''END:VCARD'') \<and>
      blocksLoop ?inst basicLatin 0 [] (False, [], [], []) = (False, [], [], [])"
    using unfold_lone_end e by simp
  note l = mp [OF conjunct1 [OF L] h3]
  have lone: "parseVCardText ?inst basicLatin (js ''END:VCARD'') =
      \<lparr>rawVCards = [], allWarnings = [?w]\<rparr>"
    using l [THEN conjunct2, THEN conjunct1] by (simp add: finishBlocks_def)
  show ?thesis
    using unfold_example e b body pre cont raw all whole lone
    by (simp add: block_example del: blocksLoop.simps)
qed


section \<open>Quoted-printable decoding\<close>

lemma less_16_cases:
  "d < 16 \<Longrightarrow> d = 0 \<or> d = 1 \<or> d = 2 \<or> d = 3 \<or> d = 4 \<or> d = 5 \<or> d = 6 \<or> d = 7 \<or> d = 8 \<or>
     d = 9 \<or> d = 10 \<or> d = 11 \<or> d = 12 \<or> d = 13 \<or> d = 14 \<or> d = (15::nat)"
  by arith

lemma hexDigit_props:
  assumes "d < 16"
  shows "isHexDigit (hexDigit d) \<and> hexValue (hexDigit d) = d \<and>
         hexDigit d \<noteq> CR \<and> hexDigit d \<noteq> LF \<and> hexDigit d \<noteq> c16 CHR ''=''"
  using less_16_cases [OF assms]
  by (elim disjE) (simp_all add: isHexDigit_def hexDigit_def hexValue_def isDigit_def)

lemma removeSoftBreaks_skip:
  "x \<noteq> c16 CHR ''='' \<Longrightarrow> removeSoftBreaks (x # s) = x # removeSoftBreaks s"
proof (cases s)
  case Nil
  then show ?thesis by simp
next
  case (Cons b t)
  assume "x \<noteq> c16 CHR ''=''"
  then show ?thesis using Cons by (cases t) simp_all
qed

lemma removeSoftBreaks_triplet:
  "removeSoftBreaks (qpTriplet b @ rest) = qpTriplet b @ removeSoftBreaks rest"
proof -
  have hi: "unat b div 16 < 16" and lo: "unat b mod 16 < 16"
    using unsigned_less [of b, where ?'a = nat] by simp_all
  note h = hexDigit_props [OF hi] hexDigit_props [OF lo]
  have "removeSoftBreaks (c16 CHR ''='' # hexDigit (unat b div 16) # hexDigit (unat b mod 16) # rest)
        = c16 CHR ''='' # removeSoftBreaks (hexDigit (unat b div 16) # hexDigit (unat b mod 16) # rest)"
    using h by simp
  then show ?thesis
    using h by (simp add: qpTriplet_def removeSoftBreaks_skip)
qed

lemma qpBytes_triplet: "qpBytes (qpTriplet b @ rest) = b # qpBytes rest"
proof -
  have hi: "unat b div 16 < 16" and lo: "unat b mod 16 < 16"
    using unsigned_less [of b, where ?'a = nat] by simp_all
  note h = hexDigit_props [OF hi] hexDigit_props [OF lo]
  have "(of_nat (16 * (unat b div 16) + unat b mod 16) :: octet) = b"
    by simp
  then show ?thesis
    using h by (simp add: qpTriplet_def)
qed

lemma removeSoftBreaks_triplets:
  "removeSoftBreaks (concat (map qpTriplet bs)) = concat (map qpTriplet bs)"
  by (induction bs) (simp_all add: removeSoftBreaks_triplet)

lemma qpBytes_triplets: "qpBytes (concat (map qpTriplet bs)) = bs"
  by (induction bs) (simp_all add: qpBytes_triplet)

lemma mod_offset: "a = k * m \<Longrightarrow> x < m \<Longrightarrow> (a + x) mod m = (x::nat)"
  by simp

lemma join3: "(n div 4096 * 64 + (n div 64) mod 64) * 64 + n mod 64 = (n::nat)"
proof -
  have "n div 4096 = n div 64 div 64"
    by (simp add: div_mult2_eq [symmetric])
  then have "n div 4096 * 64 + (n div 64) mod 64 = n div 64"
    by simp
  then show ?thesis
    by simp
qed

lemma lo3: "2048 \<le> n \<Longrightarrow> n < 4096 \<Longrightarrow> 32 \<le> (n div 64) mod (64::nat)"
proof -
  assume "2048 \<le> n" and "n < 4096"
  then have "n div 64 < 64" and "32 \<le> n div 64"
    by arith+
  then show ?thesis
    by simp
qed

lemma hi3: "n div 4096 = 13 \<Longrightarrow> n < 55296 \<Longrightarrow> (n div 64) mod 64 < (32::nat)"
proof -
  assume a: "n div 4096 = 13" and "n < 55296"
  then have lt: "n div 64 < 864"
    by arith
  have "n div 64 div 64 = 13"
    using a by (simp add: div_mult2_eq [symmetric])
  then have "n div 64 = 13 * 64 + (n div 64) mod 64"
    using div_mult_mod_eq [of "n div 64" 64] by simp
  with lt show ?thesis
    by linarith
qed

lemma octet_unat: "k < 256 \<Longrightarrow> unat (of_nat k :: octet) = k"
  by (simp add: unat_of_nat)

lemma decode_ascii:
  "unat b < 128 \<Longrightarrow>
   utf8Decode 0 0 0x80 0xBF (b # bs) = of_nat (unat b) # utf8Decode 0 0 0x80 0xBF bs"
  by (simp add: word_le_nat_alt utf8Decode.simps)

lemma decode_lead2:
  "194 \<le> unat b \<Longrightarrow> unat b \<le> 223 \<Longrightarrow>
   utf8Decode 0 0 0x80 0xBF (b # bs) = utf8Decode (unat b mod 32) 1 0x80 0xBF bs"
  by (simp add: word_le_nat_alt word_less_nat_alt utf8Decode.simps)

lemma decode_lead3:
  "224 \<le> unat b \<Longrightarrow> unat b \<le> 239 \<Longrightarrow>
   utf8Decode 0 0 0x80 0xBF (b # bs) =
     utf8Decode (unat b mod 16) 2 (if unat b = 224 then 0xA0 else 0x80)
       (if unat b = 237 then 0x9F else 0xBF) bs"
proof -
  have "(b = 0xE0) = (unat b = 224)" and "(b = 0xED) = (unat b = 237)"
    by (simp_all add: word_unat_eq_iff)
  moreover assume "224 \<le> unat b" and "unat b \<le> 239"
  ultimately show ?thesis
    by (simp add: word_le_nat_alt word_less_nat_alt utf8Decode.simps)
qed

lemma decode_continuation:
  "0 < needed \<Longrightarrow> unat lower \<le> unat b \<Longrightarrow> unat b \<le> unat upper \<Longrightarrow>
   utf8Decode cp needed lower upper (b # bs) =
     (if needed = 1 then fromCodePoint (cp * 64 + unat b mod 64) @ utf8Decode 0 0 0x80 0xBF bs
      else utf8Decode (cp * 64 + unat b mod 64) (needed - 1) 0x80 0xBF bs)"
  by (simp add: word_le_nat_alt word_less_nat_alt utf8Decode.simps)

lemma utf8Decode_unit:
  assumes "\<not> isHighSurrogate c" and "\<not> isLowSurrogate c"
  shows "utf8Decode 0 0 0x80 0xBF (unitToUtf8 c) = [c]"
proof -
  define n where "n = unat c"
  have n: "n < 65536"
    using unsigned_less [of c, where ?'a = nat] by (simp add: n_def)
  have c: "of_nat n = c"
    by (simp add: n_def)
  have ns: "n < 0xD800 \<or> 0xDFFF < n"
    using assms by (auto simp: isHighSurrogate_def isLowSurrogate_def word_le_nat_alt n_def)
  define b1 :: octet where "b1 = of_nat n"
  define c1 :: octet where "c1 = of_nat (0xC0 + n div 64)"
  define e1 :: octet where "e1 = of_nat (0xE0 + n div 4096)"
  define e2 :: octet where "e2 = of_nat (0x80 + (n div 64) mod 64)"
  define l :: octet where "l = of_nat (0x80 + n mod 64)"
  have l: "unat l = 0x80 + n mod 64"
    unfolding l_def by (intro octet_unat) simp
  have e2: "unat e2 = 0x80 + (n div 64) mod 64"
    unfolding e2_def by (intro octet_unat) simp
  have "n div 4096 < 16"
    using n by arith
  then have e1: "unat e1 = 0xE0 + n div 4096"
    unfolding e1_def by (intro octet_unat) simp
  have lmod: "unat l mod 64 = n mod 64"
    unfolding l by (rule mod_offset [where k = 2]) simp_all
  have e2mod: "unat e2 mod 64 = (n div 64) mod 64"
    unfolding e2 by (rule mod_offset [where k = 2]) simp_all
  have e1mod: "unat e1 mod 16 = n div 4096"
    unfolding e1 using \<open>n div 4096 < 16\<close> by (intro mod_offset [where k = 14]) simp_all
  have enc: "unitToUtf8 c =
      (if n < 0x80 then [b1] else if n < 0x800 then [c1, l] else [e1, e2, l])"
    using ns
    by (auto simp: unitToUtf8_def Let_def isHighSurrogate_def isLowSurrogate_def word_le_nat_alt
        b1_def c1_def e1_def e2_def l_def simp flip: n_def)
  consider "n < 0x80" | "0x80 \<le> n" "n < 0x800" | "0x800 \<le> n"
    by linarith
  then show ?thesis
  proof cases
    case 1
    have b1: "unat b1 = n"
      unfolding b1_def using 1 by (intro octet_unat) simp
    have "utf8Decode 0 0 0x80 0xBF [b1] = of_nat (unat b1) # utf8Decode 0 0 0x80 0xBF []"
      using 1 b1 by (intro decode_ascii) simp
    then show ?thesis
      using 1 c b1 by (simp add: enc utf8Decode.simps(1))
  next
    case 2
    then have d: "n div 64 < 32" and d': "2 \<le> n div 64"
      by arith+
    then have c1: "unat c1 = 0xC0 + n div 64"
      unfolding c1_def by (intro octet_unat) simp
    have c1mod: "unat c1 mod 32 = n div 64"
      unfolding c1 using d by (intro mod_offset [where k = 6]) simp_all
    have "utf8Decode 0 0 0x80 0xBF [c1, l] = utf8Decode (unat c1 mod 32) 1 0x80 0xBF [l]"
      using d d' c1 by (intro decode_lead2) simp_all
    also have "\<dots> = fromCodePoint (unat c1 mod 32 * 64 + unat l mod 64)"
      using l by (subst decode_continuation) (simp_all add: utf8Decode.simps(1))
    also have "unat c1 mod 32 * 64 + unat l mod 64 = n"
      by (simp add: c1mod lmod)
    finally show ?thesis
      using 2 n c by (simp add: enc fromCodePoint_def)
  next
    case 3
    have "utf8Decode 0 0 0x80 0xBF [e1, e2, l] =
          utf8Decode (unat e1 mod 16) 2 (if unat e1 = 224 then 0xA0 else 0x80)
            (if unat e1 = 237 then 0x9F else 0xBF) [e2, l]"
      using \<open>n div 4096 < 16\<close> e1 by (intro decode_lead3) simp_all
    also have "\<dots> = utf8Decode (unat e1 mod 16 * 64 + unat e2 mod 64) 1 0x80 0xBF [l]"
    proof -
      have "unat (if unat e1 = 224 then 0xA0 else 0x80 :: octet) \<le> unat e2"
      proof (cases "unat e1 = 224")
        case True
        then have "n < 4096"
          unfolding e1 by arith
        then show ?thesis
          using lo3 [of n] 3 True by (simp add: e2)
      next
        case False
        then show ?thesis by (simp add: e2)
      qed
      moreover have "unat e2 \<le> unat (if unat e1 = 237 then 0x9F else 0xBF :: octet)"
      proof (cases "unat e1 = 237")
        case True
        then have d: "n div 4096 = 13"
          unfolding e1 by simp
        then have "n < 57344"
          by arith
        then have "n < 55296"
          using ns by simp
        then show ?thesis
          using hi3 [OF d] True by (simp add: e2)
      next
        case False
        have "(n div 64) mod 64 < 64"
          by simp
        then show ?thesis
          using False by (simp add: e2)
      qed
      ultimately show ?thesis
        by (subst decode_continuation) simp_all
    qed
    also have "\<dots> = fromCodePoint ((unat e1 mod 16 * 64 + unat e2 mod 64) * 64 + unat l mod 64)"
      using l by (subst decode_continuation) (simp_all add: utf8Decode.simps(1))
    also have "(unat e1 mod 16 * 64 + unat e2 mod 64) * 64 + unat l mod 64 = n"
      unfolding e1mod e2mod lmod by (rule join3)
    finally show ?thesis
      using 3 n c by (simp add: enc fromCodePoint_def)
  qed
qed

lemma decode_triplets:
  "decodeQuotedPrintable (concat (map qpTriplet bs)) = utf8Decode 0 0 0x80 0xBF bs"
  by (simp add: decodeQuotedPrintable_def removeSoftBreaks_triplets qpBytes_triplets)

lemma decode_replacement: "utf8Decode 0 0 0x80 0xBF [0xEF, 0xBF, 0xBD] = [0xFFFD]"
  by (simp add: utf8Decode.simps fromCodePoint_def)

lemma decode_example:
  "decodeQuotedPrintable (js ''Fr=C3=A4nk'') = [0x46, 0x72, 0xE4, 0x6E, 0x6B]"
  by (simp add: decodeQuotedPrintable_def js_def isHexDigit_def isDigit_def hexValue_def
      fromCodePoint_def utf8Decode.simps)

lemma decode_lead4:
  "240 \<le> unat b \<Longrightarrow> unat b \<le> 244 \<Longrightarrow>
   utf8Decode 0 0 0x80 0xBF (b # bs) =
     utf8Decode (unat b mod 8) 3 (if unat b = 240 then 0x90 else 0x80)
       (if unat b = 244 then 0x8F else 0xBF) bs"
proof -
  have "(b = 0xF0) = (unat b = 240)" and "(b = 0xF4) = (unat b = 244)"
    by (simp_all add: word_unat_eq_iff)
  moreover assume "240 \<le> unat b" and "unat b \<le> 244"
  ultimately show ?thesis
    by (simp add: word_le_nat_alt word_less_nat_alt utf8Decode.simps)
qed

lemma join64: "n div (k * 64) * 64 + (n div k) mod 64 = n div (k::nat)"
proof -
  have "n div (k * 64) = n div k div 64"
    by (simp add: div_mult2_eq)
  then show ?thesis
    by simp
qed

lemma lo4: "65536 \<le> n \<Longrightarrow> n < 262144 \<Longrightarrow> 16 \<le> (n div 4096) mod (64::nat)"
proof -
  assume "65536 \<le> n" and "n < 262144"
  then have "n div 4096 < 64" and "16 \<le> n div 4096"
    by arith+
  then show ?thesis
    by simp
qed

lemma hi4: "n div 262144 = 4 \<Longrightarrow> n < 1114112 \<Longrightarrow> (n div 4096) mod 64 < (16::nat)"
proof -
  assume a: "n div 262144 = 4" and "n < 1114112"
  then have lt: "n div 4096 < 272"
    by arith
  have "n div 4096 div 64 = 4"
    using a by (simp add: div_mult2_eq [symmetric])
  then have "n div 4096 = 4 * 64 + (n div 4096) mod 64"
    using div_mult_mod_eq [of "n div 4096" 64] by simp
  with lt show ?thesis
    by linarith
qed

lemma utf8Decode_supplementary:
  assumes lo: "0x10000 \<le> cp" and hi: "cp \<le> 0x10FFFF"
  shows "utf8Decode 0 0 0x80 0xBF
           [of_nat (0xF0 + cp div 262144), of_nat (0x80 + (cp div 4096) mod 64),
            of_nat (0x80 + (cp div 64) mod 64), of_nat (0x80 + cp mod 64)] =
         [of_nat (0xD800 + (cp - 0x10000) div 0x400), of_nat (0xDC00 + (cp - 0x10000) mod 0x400)]"
proof -
  define f1 :: octet where "f1 = of_nat (0xF0 + cp div 262144)"
  define f2 :: octet where "f2 = of_nat (0x80 + (cp div 4096) mod 64)"
  define f3 :: octet where "f3 = of_nat (0x80 + (cp div 64) mod 64)"
  define l :: octet where "l = of_nat (0x80 + cp mod 64)"
  have l: "unat l = 0x80 + cp mod 64"
    unfolding l_def by (intro octet_unat) simp
  have f3: "unat f3 = 0x80 + (cp div 64) mod 64"
    unfolding f3_def by (intro octet_unat) simp
  have f2: "unat f2 = 0x80 + (cp div 4096) mod 64"
    unfolding f2_def by (intro octet_unat) simp
  have d: "cp div 262144 < 5"
    using hi by arith
  then have f1: "unat f1 = 0xF0 + cp div 262144"
    unfolding f1_def by (intro octet_unat) simp
  have lmod: "unat l mod 64 = cp mod 64"
    unfolding l by (rule mod_offset [where k = 2]) simp_all
  have f3mod: "unat f3 mod 64 = (cp div 64) mod 64"
    unfolding f3 by (rule mod_offset [where k = 2]) simp_all
  have f2mod: "unat f2 mod 64 = (cp div 4096) mod 64"
    unfolding f2 by (rule mod_offset [where k = 2]) simp_all
  have f1mod: "unat f1 mod 8 = cp div 262144"
    unfolding f1 using d by (intro mod_offset [where k = 30]) simp_all
  have "utf8Decode 0 0 0x80 0xBF [f1, f2, f3, l] =
        utf8Decode (unat f1 mod 8) 3 (if unat f1 = 240 then 0x90 else 0x80)
          (if unat f1 = 244 then 0x8F else 0xBF) [f2, f3, l]"
    using d f1 by (intro decode_lead4) simp_all
  also have "\<dots> = utf8Decode (unat f1 mod 8 * 64 + unat f2 mod 64) 2 0x80 0xBF [f3, l]"
  proof -
    have "unat (if unat f1 = 240 then 0x90 else 0x80 :: octet) \<le> unat f2"
    proof (cases "unat f1 = 240")
      case True
      then have "cp < 262144"
        unfolding f1 by arith
      then show ?thesis
        using lo4 [of cp] lo True by (simp add: f2)
    next
      case False
      then show ?thesis by (simp add: f2)
    qed
    moreover have "unat f2 \<le> unat (if unat f1 = 244 then 0x8F else 0xBF :: octet)"
    proof (cases "unat f1 = 244")
      case True
      then have d4: "cp div 262144 = 4"
        unfolding f1 by simp
      have "cp < 1114112"
        using hi by simp
      then show ?thesis
        using hi4 [OF d4] True by (simp add: f2)
    next
      case False
      have "(cp div 4096) mod 64 < 64"
        by simp
      then show ?thesis
        using False by (simp add: f2)
    qed
    ultimately show ?thesis
      by (subst decode_continuation) simp_all
  qed
  also have "unat f1 mod 8 * 64 + unat f2 mod 64 = cp div 4096"
    unfolding f1mod f2mod using join64 [of cp 4096] by simp
  also have "utf8Decode (cp div 4096) 2 0x80 0xBF [f3, l] =
      utf8Decode (cp div 4096 * 64 + unat f3 mod 64) 1 0x80 0xBF [l]"
    using f3 by (subst decode_continuation) simp_all
  also have "cp div 4096 * 64 + unat f3 mod 64 = cp div 64"
    unfolding f3mod using join64 [of cp 64] by simp
  also have "utf8Decode (cp div 64) 1 0x80 0xBF [l] =
      fromCodePoint (cp div 64 * 64 + unat l mod 64)"
    using l by (subst decode_continuation) (simp_all add: utf8Decode.simps(1))
  also have "cp div 64 * 64 + unat l mod 64 = cp"
    unfolding lmod by simp
  finally show ?thesis
    using lo by (simp add: fromCodePoint_def f1_def f2_def f3_def l_def)
qed

text \<open>
  C9. \<open>decodeQuotedPrintable\<close> collects all octets and decodes them as UTF-8 at the end:
  on a text made of \<open>=XX\<close> triplets the result is the UTF-8 decoding of the whole octet
  sequence. So a character of two or three octets split over as many triplets comes
  back as that one character: for every code unit \<open>c\<close>, the triplets of its UTF-8
  octets decode to \<open>c\<close> (to U+FFFD for a lone surrogate, which is what its octets
  encode). In particular \<open>Fr=C3=A4nk\<close> decodes to the five code units \<open>F\<close>, \<open>r\<close>,
  U+00E4, \<open>n\<close>, \<open>k\<close>. A character of four octets comes back as well: for every code
  point \<open>cp\<close> from U+10000 to U+10FFFF, the four triplets of its UTF-8 octets
  \<open>11110xxx 10xxxxxx 10xxxxxx 10xxxxxx\<close> decode to the two code units of \<open>cp\<close>, its
  high and its low surrogate.
\<close>

theorem decodeQuotedPrintable_reassembles:
  "decodeQuotedPrintable (concat (map qpTriplet bs)) = utf8Decode 0 0 0x80 0xBF bs \<and>
   decodeQuotedPrintable (concat (map qpTriplet (unitToUtf8 c))) =
     (if isHighSurrogate c \<or> isLowSurrogate c then [0xFFFD] else [c]) \<and>
   decodeQuotedPrintable (js ''Fr=C3=A4nk'') = [0x46, 0x72, 0xE4, 0x6E, 0x6B] \<and>
   ((0x10000::nat) \<le> cp \<and> cp \<le> 0x10FFFF \<longrightarrow>
    decodeQuotedPrintable (concat (map qpTriplet
        [of_nat (0xF0 + cp div 0x40000), of_nat (0x80 + (cp div 0x1000) mod 0x40),
         of_nat (0x80 + (cp div 0x40) mod 0x40), of_nat (0x80 + cp mod 0x40)])) =
      [of_nat (0xD800 + (cp - 0x10000) div 0x400), of_nat (0xDC00 + (cp - 0x10000) mod 0x400)])"
proof (intro conjI impI)
  show "decodeQuotedPrintable (concat (map qpTriplet bs)) = utf8Decode 0 0 0x80 0xBF bs"
    by (rule decode_triplets)
  show "decodeQuotedPrintable (concat (map qpTriplet (unitToUtf8 c))) =
     (if isHighSurrogate c \<or> isLowSurrogate c then [0xFFFD] else [c])"
  proof (cases "isHighSurrogate c \<or> isLowSurrogate c")
    case False
    then show ?thesis
      by (simp add: decode_triplets utf8Decode_unit)
  next
    case True
    then have "0x800 \<le> unat c"
      by (auto simp: isHighSurrogate_def isLowSurrogate_def word_le_nat_alt)
    then have "unitToUtf8 c = [0xEF, 0xBF, 0xBD]"
      using True by (simp add: unitToUtf8_def Let_def)
    then show ?thesis
      using True by (simp only: decode_triplets decode_replacement if_True)
  qed
  show "decodeQuotedPrintable (js ''Fr=C3=A4nk'') = [0x46, 0x72, 0xE4, 0x6E, 0x6B]"
    by (rule decode_example)
  assume "(0x10000::nat) \<le> cp \<and> cp \<le> 0x10FFFF"
  then have "0x10000 \<le> cp" and "cp \<le> 0x10FFFF"
    by simp_all
  then show "decodeQuotedPrintable (concat (map qpTriplet
        [of_nat (0xF0 + cp div 0x40000), of_nat (0x80 + (cp div 0x1000) mod 0x40),
         of_nat (0x80 + (cp div 0x40) mod 0x40), of_nat (0x80 + cp mod 0x40)])) =
      [of_nat (0xD800 + (cp - 0x10000) div 0x400), of_nat (0xDC00 + (cp - 0x10000) mod 0x400)]"
    unfolding decode_triplets by (rule utf8Decode_supplementary)
qed

text \<open>
  The code point U+1F600, whose UTF-8 octets are \<open>F0 9F 98 80\<close>: the text
  \<open>=F0=9F=98=80\<close> decodes to the surrogate pair \<open>D83D DE00\<close>.
\<close>

theorem decodeQuotedPrintable_reassembles_witness:
  "(0x10000::nat) \<le> 0x1F600 \<and> (0x1F600::nat) \<le> 0x10FFFF \<and>
   concat (map qpTriplet
     [of_nat (0xF0 + 0x1F600 div 0x40000), of_nat (0x80 + (0x1F600 div 0x1000) mod 0x40),
      of_nat (0x80 + (0x1F600 div 0x40) mod 0x40), of_nat (0x80 + 0x1F600 mod 0x40)]) =
     js ''=F0=9F=98=80'' \<and>
   decodeQuotedPrintable (js ''=F0=9F=98=80'') = [0xD83D, 0xDE00]"
proof -
  have enc: "concat (map qpTriplet
     [of_nat (0xF0 + 0x1F600 div 0x40000), of_nat (0x80 + (0x1F600 div 0x1000) mod 0x40),
      of_nat (0x80 + (0x1F600 div 0x40) mod 0x40), of_nat (0x80 + 0x1F600 mod 0x40)]) =
     js ''=F0=9F=98=80''"
    by (simp add: qpTriplet_def hexDigit_def js_def)
  have "decodeQuotedPrintable (js ''=F0=9F=98=80'') =
      [of_nat (0xD800 + (0x1F600 - 0x10000) div 0x400),
       of_nat (0xDC00 + (0x1F600 - 0x10000) mod 0x400)]"
    using decodeQuotedPrintable_reassembles [where cp = "0x1F600"] unfolding enc by simp
  then show ?thesis
    using enc by simp
qed

section \<open>Validation on generation\<close>

lemma serializeVCard_missing_FN:
  "filter (\<lambda>p. name p = js ''FN'') ps = [] \<Longrightarrow> validate options \<noteq> Some False \<Longrightarrow>
   serializeVCard ps options =
     Inl (VCardError (js ''Missing required property: FN'') (Some (js ''FN'')))"
  by (simp add: serializeVCard_def validateForGeneration_def)

lemma checkPref_out_of_range:
  "q \<in> set ps \<Longrightarrow> pref q = Some n \<Longrightarrow> numLess n 1 \<or> numGreater n 100 \<Longrightarrow>
   \<exists>msg p. p \<in> set ps \<and> checkPref ps = Some (VCardError msg (Some (name p)))"
proof (induction ps)
  case Nil
  then show ?case by simp
next
  case (Cons a ps)
  show ?case
  proof (cases "\<exists>msg. checkPref (a # ps) = Some (VCardError msg (Some (name a)))")
    case True
    then show ?thesis
      by auto
  next
    case False
    then have "checkPref (a # ps) = checkPref ps" and "q \<noteq> a"
      using Cons.prems(2,3) by (auto split: option.splits if_splits)
    moreover from this obtain msg p where
      "p \<in> set ps" "checkPref ps = Some (VCardError msg (Some (name p)))"
      using Cons by auto
    ultimately show ?thesis
      by auto
  qed
qed

lemma serializeVCard_bad_pref:
  assumes "filter (\<lambda>p. name p = js ''FN'') ps \<noteq> []" and "validate options \<noteq> Some False"
    and "q \<in> set ps" and "pref q = Some n" and "numLess n 1 \<or> numGreater n 100"
  shows "\<exists>msg p. p \<in> set ps \<and> serializeVCard ps options = Inl (VCardError msg (Some (name p)))"
proof -
  obtain msg p where "p \<in> set ps" "checkPref ps = Some (VCardError msg (Some (name p)))"
    using checkPref_out_of_range [OF assms(3-5)] by blast
  then show ?thesis
    using assms(1,2) by (auto simp: serializeVCard_def validateForGeneration_def)
qed

lemma serializeVCard_no_validation:
  "validate options = Some False \<Longrightarrow> \<exists>out. serializeVCard ps options = Inr out"
  by (simp add: serializeVCard_def)

lemmas serialize_eval =
  serializeVCard_def validateForGeneration_def pref_def mapGet_def js_def parseInt_def isDigit_def
  isWhiteSpace_def digitsValue_def numLess_def numGreater_def isInteger_def orderProperties_def
  PROPERTY_ORDER_def serializeProperty_def serializeParameters_def serializeParameter_def
  quoteParamValue_def needsParamQuoting_def toContentLine_def escapeText_def replaceUnit_def
  foldLine_def MAX_LINE_OCTETS_def unitOctets_def isHighSurrogate_def isLowSurrogate_def Let_def

text \<open>
  C8. The claim: every property list with a \<open>PREF\<close> parameter that is not an integer
  in 1 to 100 makes \<open>serializeVCard\<close>, validation enabled, throw a \<open>VCardError\<close>.
  Validation reads \<open>PREF\<close> through the \<open>pref\<close> accessor, that is through \<open>parseInt\<close>:
  of \<open>1.5\<close> it sees \<open>1\<close> (and of a text without a leading number, nothing), and the
  test \<open>!Number.isInteger(pref)\<close> can never succeed. So the card with the one property
  \<open>FN;PREF=1.5:Test\<close> is serialized without an error. (A missing \<open>FN\<close>, and a \<open>PREF\<close>
  whose leading integer is outside 1 to 100, do throw as claimed, and \<open>validate: false\<close>
  skips the checks: lemmas \<open>serializeVCard_missing_FN\<close>, \<open>serializeVCard_bad_pref\<close>,
  \<open>serializeVCard_no_validation\<close>.)
\<close>

theorem serializeVCard_accepts_fractional_pref:
  "serializeVCard
     [\<lparr>group = None, name = js ''FN'', params = [(js ''PREF'', Scalar (js ''1.5''))],
       content = TextValue (js ''Test'')\<rparr>]
     \<lparr>validate = None\<rparr>
   = Inr (js ''BEGIN:VCARD'' @ [CR, LF] @ js ''VERSION:4.0'' @ [CR, LF] @
          js ''FN;PREF=1.5:Test'' @ [CR, LF] @ js ''END:VCARD'' @ [CR, LF])"
  by (simp add: serialize_eval)

end
